theory Spec2Isabelle
  imports Complex_Main "HOL-Library.AList" "HOL-Library.Log_Nat"
begin

section \<open>Python values used by \<open>Bio/Phylo/_utils.py\<close>\<close>

text \<open>
  Exceptions are values. A function of the module that can raise returns
  \<open>error + 'a\<close>, with \<open>Inl\<close> for the exception that propagates.
\<close>

datatype error =
    IndexError
  | KeyError
  | ZeroDivisionError
  | ValueError string
  | TypeError string
  | AttributeError string
  | MissingPythonDependencyError string

text \<open>
  A Python \<open>dict\<close> keyed by clade objects: an association list in insertion order,
  keyed by the identity of the clade. \<open>d[k] = v\<close> is \<open>AList.update k v d\<close> (an
  existing key keeps its place, a new key goes to the end), \<open>d[k]\<close> is
  \<open>map_of d k\<close> with \<open>None\<close> for the \<open>KeyError\<close>, \<open>k in d\<close> is
  \<open>map_of d k \<noteq> None\<close>.
\<close>

type_synonym 'v dict = "(nat \<times> 'v) list"

definition dict_of :: "(nat \<times> 'v) list \<Rightarrow> 'v dict" where
  \<comment> \<open>a dict comprehension: the items are stored one after the other\<close>
  "dict_of items = foldl (\<lambda>d (k, v). AList.update k v d) [] items"

definition dict_values :: "'v dict \<Rightarrow> 'v list" where
  "dict_values d = map snd d"

definition py_max :: "('a::linorder) list \<Rightarrow> error + 'a" where
  \<comment> \<open>\<open>max(xs)\<close>; raises \<open>ValueError\<close> on an empty sequence\<close>
  "py_max xs = (case xs of
                  [] \<Rightarrow> Inl (ValueError ''max() arg is an empty sequence'')
                | x # rest \<Rightarrow> Inr (fold max rest x))"

definition py_int :: "real \<Rightarrow> int" where
  \<comment> \<open>\<open>int(x)\<close> of a float: truncation towards zero\<close>
  "py_int x = (if 0 \<le> x then \<lfloor>x\<rfloor> else \<lceil>x\<rceil>)"

section \<open>The tree model\<close>

text \<open>
  Modelled from the spec: the clade and the tree of \<open>Bio.Phylo.BaseTree\<close>, which is
  not among the sources at hand. By the data model of the specification (section 3) a
  clade has an optional branch length, confidence value(s), colour, width and name and
  an ordered sequence of child clades; a tree has a root clade, the flag \<open>rooted\<close> and
  an optional name. Floats are modelled as reals. \<open>ident\<close> is the identity of the
  Python object: the dictionaries of the module are keyed by clade objects, which hash
  and compare by identity.
\<close>

record clade_info =
  ident :: nat
  branch_length :: "real option"
  name :: "string option"
  confidence :: "real option"
  confidences :: "real list option"  \<comment> \<open>\<open>None\<close>: the attribute does not exist\<close>
  color :: "string option"           \<comment> \<open>the colour as its hex string\<close>
  width :: "real option"

datatype clade = Clade (info: clade_info) (clades: "clade list")

record tree =
  root_clade :: clade
  rooted :: bool
  tree_name :: "string option"

abbreviation cid :: "clade \<Rightarrow> nat" where
  "cid c \<equiv> ident (info c)"

text \<open>
  Modelled from the spec: the traversal of \<open>BaseTree\<close> (missing from the sources).
  All clades of a subtree, parents before children, children left to right.
\<close>

fun find_clades :: "clade \<Rightarrow> clade list"
  and find_clades_list :: "clade list \<Rightarrow> clade list" where
  "find_clades (Clade a cs) = Clade a cs # find_clades_list cs"
| "find_clades_list [] = []"
| "find_clades_list (c # cs) = find_clades c @ find_clades_list cs"

text \<open>
  Modelled from the spec: \<open>Tree.get_terminals()\<close> and \<open>Tree.count_terminals()\<close>
  (missing from the sources): the leaf clades in left-to-right traversal order, and
  their number.
\<close>

definition is_terminal :: "clade \<Rightarrow> bool" where
  "is_terminal c = (clades c = [])"

definition get_terminals :: "tree \<Rightarrow> clade list" where
  "get_terminals t = filter is_terminal (find_clades (root_clade t))"

definition count_terminals :: "tree \<Rightarrow> nat" where
  "count_terminals t = length (get_terminals t)"

text \<open>
  Modelled from the spec: \<open>Tree.depths(unit_branch_lengths)\<close> (missing from the
  sources): the mapping of every clade to its cumulative branch length from the root,
  the root at depth 0 and an absent branch length counting as 0; with unit branch
  lengths every edge counts 1.
\<close>

definition depth_of :: "bool \<Rightarrow> clade \<Rightarrow> real" where
  "depth_of unit_branch_lengths c =
     (if unit_branch_lengths then 1
      else (case branch_length (info c) of None \<Rightarrow> 0 | Some l \<Rightarrow> l))"

fun update_depths :: "bool \<Rightarrow> real \<Rightarrow> clade \<Rightarrow> (nat \<times> real) list"
  and update_depths_list :: "bool \<Rightarrow> real \<Rightarrow> clade list \<Rightarrow> (nat \<times> real) list" where
  "update_depths u curr_depth (Clade a cs) = (ident a, curr_depth) # update_depths_list u curr_depth cs"
| "update_depths_list u curr_depth [] = []"
| "update_depths_list u curr_depth (c # cs) =
     update_depths u (curr_depth + depth_of u c) c @ update_depths_list u curr_depth cs"

definition depths :: "tree \<Rightarrow> bool \<Rightarrow> real dict" where
  "depths t unit_branch_lengths = dict_of (update_depths unit_branch_lengths 0 (root_clade t))"

text \<open>
  Modelled from the spec: \<open>str(clade)\<close> (missing from the sources): the name of the
  clade, or the class name when the clade has none.
\<close>

definition str_clade :: "clade \<Rightarrow> string" where
  "str_clade c = (case name (info c) of Some n \<Rightarrow> n | None \<Rightarrow> ''Clade'')"

text \<open>
  A tree is well formed when every clade object occurs once in it: each clade is owned
  by exactly one parent.
\<close>

definition wf_tree :: "tree \<Rightarrow> bool" where
  "wf_tree t = distinct (map cid (find_clades (root_clade t)))"

section \<open>The layout of \<open>draw\<close>: \<open>get_x_positions\<close> and \<open>get_y_positions\<close>\<close>

definition get_x_positions :: "tree \<Rightarrow> error + real dict" where
  "get_x_positions t =
     (let depths0 = depths t False in
      case py_max (dict_values depths0) of
        Inl e \<Rightarrow> Inl e
      | Inr m \<Rightarrow> Inr (if m = 0 then depths t True else depths0))"

text \<open>
  \<open>calc_row\<close> is the closure of both height layouts; they differ in the division only
  (\<open>/ 2.0\<close> in \<open>draw\<close>, \<open>// 2\<close> in \<open>draw_ascii\<close>), which is the parameter
  \<open>half\<close>. The dictionary the closure updates is passed in and returned.
  \<open>clade.clades[0]\<close> of a clade without children raises \<open>IndexError\<close>.
\<close>

fun calc_row_by :: "('v \<Rightarrow> 'v) \<Rightarrow> clade \<Rightarrow> ('v::plus) dict \<Rightarrow> error + 'v dict"
  and calc_row_subclades :: "('v \<Rightarrow> 'v) \<Rightarrow> clade list \<Rightarrow> 'v dict \<Rightarrow> error + 'v dict" where
  "calc_row_by half (Clade a cs) positions =
     (case calc_row_subclades half cs positions of
        Inl e \<Rightarrow> Inl e
      | Inr positions' \<Rightarrow>
          (if cs = [] then Inl IndexError
           else (case map_of positions' (cid (hd cs)) of
                   None \<Rightarrow> Inl KeyError
                 | Some y0 \<Rightarrow>
                     (case map_of positions' (cid (last cs)) of
                        None \<Rightarrow> Inl KeyError
                      | Some y1 \<Rightarrow> Inr (AList.update (ident a) (half (y0 + y1)) positions')))))"
| "calc_row_subclades half [] positions = Inr positions"
| "calc_row_subclades half (subclade # rest) positions =
     (if map_of positions (cid subclade) = None
      then (case calc_row_by half subclade positions of
              Inl e \<Rightarrow> Inl e
            | Inr positions' \<Rightarrow> calc_row_subclades half rest positions')
      else calc_row_subclades half rest positions)"

definition calc_row_y :: "clade \<Rightarrow> real dict \<Rightarrow> error + real dict" where
  \<comment> \<open>\<open>calc_row\<close> of \<open>get_y_positions\<close>\<close>
  "calc_row_y = calc_row_by (\<lambda>s. s / 2)"

definition get_y_positions :: "tree \<Rightarrow> error + real dict" where
  "get_y_positions t =
     (let maxheight = count_terminals t;
          heights = dict_of (map (\<lambda>(i, tip). (cid tip, real maxheight - real i))
                                 (enumerate 0 (rev (get_terminals t))))
      in if clades (root_clade t) \<noteq> [] then calc_row_y (root_clade t) heights
         else Inr heights)"

section \<open>The layout of \<open>draw_ascii\<close>: \<open>get_col_positions\<close> and \<open>get_row_positions\<close>\<close>

definition fudge_margin :: "nat \<Rightarrow> error + int" where
  \<comment> \<open>\<open>int(math.ceil(math.log(len(taxa), 2)))\<close>; \<open>math.log(0, 2)\<close> raises\<close>
  "fudge_margin n =
     (if n = 0 then Inl (ValueError ''math domain error'')
      else Inr \<lceil>log 2 (real n)\<rceil>)"

definition get_col_positions :: "clade list \<Rightarrow> int \<Rightarrow> tree \<Rightarrow> error + int dict" where
  \<comment> \<open>\<open>taxa\<close> and \<open>drawing_width\<close> are the variables of \<open>draw_ascii\<close> the closure reads\<close>
  "get_col_positions taxa drawing_width t =
     (let depths0 = depths t False in
      case py_max (dict_values depths0) of
        Inl e \<Rightarrow> Inl e
      | Inr m \<Rightarrow>
          (let depths1 = (if m = 0 then depths t True else depths0) in
           case fudge_margin (length taxa) of
             Inl e \<Rightarrow> Inl e
           | Inr fm \<Rightarrow>
               (case py_max (dict_values depths1) of
                  Inl e \<Rightarrow> Inl e
                | Inr m1 \<Rightarrow>
                    if m1 = 0 then Inl ZeroDivisionError
                    else (let cols_per_branch_unit = real_of_int (drawing_width - fm) / m1
                          in Inr (map (\<lambda>(clade, blen). (clade, py_int (blen * cols_per_branch_unit + 1)))
                                      depths1)))))"

definition calc_row :: "clade \<Rightarrow> int dict \<Rightarrow> error + int dict" where
  \<comment> \<open>\<open>calc_row\<close> of \<open>get_row_positions\<close>\<close>
  "calc_row = calc_row_by (\<lambda>s. s div 2)"

definition get_row_positions :: "clade list \<Rightarrow> tree \<Rightarrow> error + int dict" where
  "get_row_positions taxa t =
     (let positions = dict_of (map (\<lambda>(idx, taxon). (cid taxon, 2 * int idx)) (enumerate 0 taxa))
      in calc_row (root_clade t) positions)"

section \<open>\<open>draw_ascii\<close>\<close>

text \<open>
  The character matrix is a list of rows. A Python index denotes a position from the
  front when it is not negative and from the end when it is; outside the list it raises
  \<open>IndexError\<close>.
\<close>

type_synonym char_matrix = "char list list"

definition py_index :: "'a list \<Rightarrow> int \<Rightarrow> nat option" where
  "py_index xs i =
     (let n = int (length xs) in
      if 0 \<le> i \<and> i < n then Some (nat i)
      else if - n \<le> i \<and> i < 0 then Some (nat (n + i))
      else None)"

definition set_cell :: "char_matrix \<Rightarrow> int \<Rightarrow> int \<Rightarrow> char \<Rightarrow> error + char_matrix" where
  \<comment> \<open>\<open>char_matrix[row][col] = ch\<close>\<close>
  "set_cell m row col ch =
     (case py_index m row of
        None \<Rightarrow> Inl IndexError
      | Some r \<Rightarrow>
          (case py_index (m ! r) col of
             None \<Rightarrow> Inl IndexError
           | Some c \<Rightarrow> Inr (m[r := (m ! r)[c := ch]])))"

fun set_cells :: "char_matrix \<Rightarrow> (int \<times> int) list \<Rightarrow> char \<Rightarrow> error + char_matrix" where
  \<comment> \<open>a \<open>for\<close> loop of cell assignments\<close>
  "set_cells m [] ch = Inr m"
| "set_cells m ((row, col) # rest) ch =
     (case set_cell m row col ch of
        Inl e \<Rightarrow> Inl e
      | Inr m' \<Rightarrow> set_cells m' rest ch)"

definition py_range :: "int \<Rightarrow> int \<Rightarrow> int list" where
  \<comment> \<open>\<open>range(a, b)\<close>\<close>
  "py_range a b = [a..b - 1]"

text \<open>
  \<open>draw_clade\<close> of \<open>draw_ascii\<close>. The closure reads \<open>col_positions\<close> and
  \<open>row_positions\<close> and writes into \<open>char_matrix\<close>, which is passed in and
  returned.
\<close>

fun draw_clade_ascii :: "int dict \<Rightarrow> int dict \<Rightarrow> clade \<Rightarrow> int \<Rightarrow> char_matrix \<Rightarrow> error + char_matrix"
  and draw_descendents_ascii :: "int dict \<Rightarrow> int dict \<Rightarrow> clade list \<Rightarrow> int \<Rightarrow> char_matrix \<Rightarrow> error + char_matrix" where
  "draw_clade_ascii col_positions row_positions (Clade a cs) startcol m =
     (case map_of col_positions (ident a) of
        None \<Rightarrow> Inl KeyError
      | Some thiscol \<Rightarrow>
     (case map_of row_positions (ident a) of
        None \<Rightarrow> Inl KeyError
      | Some thisrow \<Rightarrow>
     (case set_cells m (map (\<lambda>col. (thisrow, col)) (py_range startcol thiscol)) CHR ''_'' of
        Inl e \<Rightarrow> Inl e
      | Inr m1 \<Rightarrow>
     if cs = [] then Inr m1
     else
     (case map_of row_positions (cid (hd cs)) of
        None \<Rightarrow> Inl KeyError
      | Some toprow \<Rightarrow>
     (case map_of row_positions (cid (last cs)) of
        None \<Rightarrow> Inl KeyError
      | Some botrow \<Rightarrow>
     (case set_cells m1 (map (\<lambda>row. (row, thiscol)) (py_range (toprow + 1) (botrow + 1))) CHR ''|'' of
        Inl e \<Rightarrow> Inl e
      | Inr m2 \<Rightarrow>
     (case map_of col_positions (cid (hd cs)) of
        None \<Rightarrow> Inl KeyError
      | Some firstcol \<Rightarrow>
     (case (if firstcol - thiscol < 2 then set_cell m2 toprow thiscol CHR '','' else Inr m2) of
        Inl e \<Rightarrow> Inl e
      | Inr m3 \<Rightarrow> draw_descendents_ascii col_positions row_positions cs (thiscol + 1) m3))))))))"
| "draw_descendents_ascii col_positions row_positions [] startcol m = Inr m"
| "draw_descendents_ascii col_positions row_positions (child # rest) startcol m =
     (case draw_clade_ascii col_positions row_positions child startcol m of
        Inl e \<Rightarrow> Inl e
      | Inr m' \<Rightarrow> draw_descendents_ascii col_positions row_positions rest startcol m')"

definition is_space :: "char \<Rightarrow> bool" where
  \<comment> \<open>the ASCII whitespace \<open>str.rstrip()\<close> removes\<close>
  "is_space c = (c \<in> set [CHR '' '', CHR 0x09, CHR 0x0A, CHR 0x0B, CHR 0x0C, CHR 0x0D,
                            CHR 0x1C, CHR 0x1D, CHR 0x1E, CHR 0x1F])"

definition rstrip :: "string \<Rightarrow> string" where
  "rstrip s = rev (dropWhile is_space (rev s))"

fun write_rows :: "clade list \<Rightarrow> (nat \<times> string) list \<Rightarrow> error + string list" where
  \<comment> \<open>the loop that prints the drawing: the strings passed to \<open>file.write\<close>\<close>
  "write_rows taxa [] = Inr []"
| "write_rows taxa ((idx, row) # rest) =
     (let line = rstrip row in
      if idx mod 2 = 0 \<and> \<not> idx div 2 < length taxa then Inl IndexError
      else (case write_rows taxa rest of
              Inl e \<Rightarrow> Inl e
            | Inr ws \<Rightarrow>
                Inr (((if idx mod 2 = 0 then line @ '' '' @ str_clade (taxa ! (idx div 2)) else line)
                      @ [CHR 0x0A]) # ws)))"

text \<open>
  \<open>draw_ascii(tree, file, column_width)\<close>. The result is the list of the strings
  written to \<open>file\<close> (the standard output when \<open>file\<close> is \<open>None\<close>), in order.
\<close>

definition draw_ascii :: "tree \<Rightarrow> int \<Rightarrow> error + string list" where
  "draw_ascii t column_width =
     (let taxa = get_terminals t in
      case py_max (map (\<lambda>taxon. int (length (str_clade taxon))) taxa) of
        Inl e \<Rightarrow> Inl e
      | Inr max_label_width \<Rightarrow>
     (let drawing_width = column_width - max_label_width - 1;
          drawing_height = 2 * int (length taxa) - 1 in
      case get_col_positions taxa drawing_width t of
        Inl e \<Rightarrow> Inl e
      | Inr col_positions \<Rightarrow>
     (case get_row_positions taxa t of
        Inl e \<Rightarrow> Inl e
      | Inr row_positions \<Rightarrow>
     (let char_matrix = replicate (nat drawing_height) (replicate (nat drawing_width) CHR '' '') in
      case draw_clade_ascii col_positions row_positions (root_clade t) 0 char_matrix of
        Inl e \<Rightarrow> Inl e
      | Inr char_matrix' \<Rightarrow>
     (case write_rows taxa (enumerate 0 char_matrix') of
        Inl e \<Rightarrow> Inl e
      | Inr ws \<Rightarrow> Inr (ws @ [[CHR 0x0A]]))))))"

section \<open>\<open>draw\<close>: the plotting surface and the arguments\<close>

text \<open>
  The Python values a keyword option of \<open>draw\<close> may carry, and the arguments of the
  calls made to the plotting library. Dictionaries have string keys.
\<close>

datatype pyval =
    PyNone
  | PyBool bool
  | PyInt int
  | PyFloat real
  | PyStr string
  | PyTuple "pyval list"
  | PyList "pyval list"
  | PyDict "(string \<times> pyval) list"

text \<open>
  The plotting library (matplotlib) is external. Its surface is modelled by the calls
  issued to it, in order: a call is the name of the function or method with its
  positional and its keyword arguments; \<open>axes.add_collection\<close> takes a line collection
  of one segment. The state of \<open>draw\<close> is the calls issued so far and its two lists of
  line collections.
\<close>

record line_collection =
  segment :: "(real \<times> real) \<times> (real \<times> real)"
  lc_color :: string
  lc_lw :: real
  lc_linestyle :: string

datatype call =
    Call string "pyval list" "(string \<times> pyval) list"
  | AddCollection line_collection

record plot =
  calls :: "call list"
  horizontal_linecollections :: "line_collection list"
  vertical_linecollections :: "line_collection list"

definition new_plot :: plot where
  "new_plot = \<lparr>calls = [], horizontal_linecollections = [], vertical_linecollections = []\<rparr>"

definition issue :: "call \<Rightarrow> plot \<Rightarrow> plot" where
  "issue c p = p\<lparr>calls := calls p @ [c]\<rparr>"

text \<open>
  An exception that leaves \<open>draw\<close> is paired with the state of the plot at the
  moment it is raised.
\<close>

type_synonym 'a outcome = "(error \<times> plot) + 'a"

definition and_then :: "'a outcome \<Rightarrow> ('a \<Rightarrow> 'b outcome) \<Rightarrow> 'b outcome" where
  "and_then r f = (case r of Inl e \<Rightarrow> Inl e | Inr x \<Rightarrow> f x)"

definition raising :: "plot \<Rightarrow> error + 'a \<Rightarrow> 'a outcome" where
  \<comment> \<open>a computation that does not touch the plot, run in the state \<open>p\<close>\<close>
  "raising p r = (case r of Inl e \<Rightarrow> Inl (e, p) | Inr x \<Rightarrow> Inr x)"

definition lookup :: "'v dict \<Rightarrow> clade \<Rightarrow> error + 'v" where
  \<comment> \<open>\<open>d[clade]\<close>\<close>
  "lookup d c = (case map_of d (cid c) of None \<Rightarrow> Inl KeyError | Some v \<Rightarrow> Inr v)"

text \<open>
  What \<open>draw\<close> takes from its environment: whether the optional libraries can be
  imported (and the version of networkx), \<open>plt.rcParams["lines.linewidth"]\<close>, Python's
  \<open>str\<close> of a value, whether \<open>pyplot\<close> has an attribute of a given name, the result
  of calling that function of \<open>pyplot\<close> (\<open>None\<close> when the call returns, the exception
  otherwise), and \<open>scipy.interpolate.interp1d(xs, ys)(x)\<close>.
\<close>

record env =
  matplotlib_available :: bool
  pylab_available :: bool
  numpy_available :: bool
  scipy_available :: bool
  networkx_version :: "string option"
  rc_linewidth :: real
  py_str :: "pyval \<Rightarrow> string"
  pyplot_has :: "string \<Rightarrow> bool"
  pyplot_call :: "string \<Rightarrow> pyval list \<Rightarrow> (string \<times> pyval) list \<Rightarrow> error option"
  interp1d :: "real list \<Rightarrow> real list \<Rightarrow> real list \<Rightarrow> error + real list"

text \<open>The arguments of \<open>draw\<close>.\<close>

record axes_object =
  is_Axes :: bool                    \<comment> \<open>\<open>isinstance(axes, plt.matplotlib.axes.Axes)\<close>\<close>
  axes_name :: "string option"      \<comment> \<open>\<open>axes.name\<close>; \<open>None\<close>: no such attribute\<close>
  axes_str :: string                 \<comment> \<open>\<open>str(axes)\<close>\<close>

datatype branch_labels_arg =
    BLNone
  | BLDict "string dict"
  | BLCallable "clade \<Rightarrow> string option"
  | BLOther bool                     \<comment> \<open>any other object, with its truth value\<close>

datatype label_colors_arg =
    LCNone
  | LCCallable "string \<Rightarrow> string"
  | LCDict "(string \<times> string) list"

record draw_args =
  label_func :: "clade \<Rightarrow> string option"
  do_show :: bool
  show_confidence :: bool
  axes :: "axes_object option"
  branch_labels :: branch_labels_arg
  label_colors :: label_colors_arg
  orient_tree :: string
  horizontal_direction :: string
  vertical_direction :: string
  circular_span :: real
  draw_labels :: bool
  align_labels :: bool
  kwargs :: "(string \<times> pyval) list"

definition default_args :: draw_args where
  "default_args = \<lparr>label_func = (\<lambda>c. Some (str_clade c)), do_show = True, show_confidence = True,
     axes = None, branch_labels = BLNone, label_colors = LCNone, orient_tree = ''vertical'',
     horizontal_direction = ''down'', vertical_direction = ''right'', circular_span = 355,
     draw_labels = True, align_labels = False, kwargs = []\<rparr>"

definition quoted :: "string \<Rightarrow> string" where
  "quoted s = [CHR 0x27] @ s @ [CHR 0x27]"

definition class_name :: string where
  \<comment> \<open>\<open>clade.__class__.__name__\<close>\<close>
  "class_name = ''Clade''"

section \<open>\<open>draw\<close>: the options for branch labels and label colours\<close>

definition conf2str :: "env \<Rightarrow> real \<Rightarrow> string" where
  "conf2str e conf =
     (if real_of_int (py_int conf) = conf then py_str e (PyInt (py_int conf))
      else py_str e (PyFloat conf))"

fun join :: "string \<Rightarrow> string list \<Rightarrow> string" where
  \<comment> \<open>\<open>sep.join(xs)\<close>\<close>
  "join sep [] = []"
| "join sep [x] = x"
| "join sep (x # y # ys) = x @ sep @ join sep (y # ys)"

definition truthy_branch_labels :: "branch_labels_arg \<Rightarrow> bool" where
  \<comment> \<open>the truth value of \<open>branch_labels\<close>: \<open>None\<close> and the empty dict are false\<close>
  "truthy_branch_labels b =
     (case b of BLNone \<Rightarrow> False | BLDict d \<Rightarrow> d \<noteq> [] | BLCallable f \<Rightarrow> True | BLOther t \<Rightarrow> t)"

definition format_confidence :: "env \<Rightarrow> clade \<Rightarrow> string option" where
  \<comment> \<open>\<open>format_branch_label\<close> when \<open>branch_labels\<close> is false and \<open>show_confidence\<close> holds\<close>
  "format_confidence e c =
     (case confidences (info c) of
        Some cnfs \<Rightarrow> Some (join ''/'' (map (conf2str e) cnfs))
      | None \<Rightarrow>
          (case confidence (info c) of
             Some cnf \<Rightarrow> Some (conf2str e cnf)
           | None \<Rightarrow> None))"

definition select_format_branch_label :: "env \<Rightarrow> draw_args \<Rightarrow> error + (clade \<Rightarrow> string option)" where
  \<comment> \<open>lines 304 to 334: the function \<open>format_branch_label\<close> is bound to\<close>
  "select_format_branch_label e args =
     (if \<not> truthy_branch_labels (branch_labels args) then
        (if show_confidence args then Inr (format_confidence e) else Inr (\<lambda>clade. None))
      else (case branch_labels args of
              BLDict d \<Rightarrow> Inr (\<lambda>clade. map_of d (cid clade))
            | BLCallable f \<Rightarrow> Inr f
            | _ \<Rightarrow> Inl (TypeError ''branch_labels must be either a dict or a callable (function)'')))"

definition select_get_label_color :: "draw_args \<Rightarrow> string \<Rightarrow> string" where
  \<comment> \<open>lines 337 to 352: the function \<open>get_label_color\<close> is bound to\<close>
  "select_get_label_color args =
     (case label_colors args of
        LCNone \<Rightarrow> (\<lambda>label. ''black'')
      | LCCallable f \<Rightarrow> (\<lambda>label. f label)
      | LCDict d \<Rightarrow>
          (if d \<noteq> [] then (\<lambda>label. (case map_of d label of Some c \<Rightarrow> c | None \<Rightarrow> ''black''))
           else (\<lambda>label. ''black'')))"

section \<open>\<open>draw\<close>: drawing the clades\<close>

definition draw_clade_lines ::
  "bool \<Rightarrow> string \<Rightarrow> real \<Rightarrow> real \<Rightarrow> real \<Rightarrow> real \<Rightarrow> real \<Rightarrow> string \<Rightarrow> real \<Rightarrow> string \<Rightarrow> plot \<Rightarrow> plot" where
  "draw_clade_lines use_linecollection orientation y_here x_start x_here y_bot y_top color' lw linestyle p =
     (if \<not> use_linecollection \<and> orientation = ''horizontal'' then
        issue (Call ''axes.hlines'' [PyFloat y_here, PyFloat x_start, PyFloat x_here]
                 [(''color'', PyStr color'), (''lw'', PyFloat lw), (''linestyle'', PyStr linestyle)]) p
      else if use_linecollection \<and> orientation = ''horizontal'' then
        p\<lparr>horizontal_linecollections := horizontal_linecollections p @
            [\<lparr>segment = ((x_start, y_here), (x_here, y_here)), lc_color = color', lc_lw = lw,
              lc_linestyle = linestyle\<rparr>]\<rparr>
      else if \<not> use_linecollection \<and> orientation = ''vertical'' then
        issue (Call ''axes.vlines'' [PyFloat x_here, PyFloat y_bot, PyFloat y_top]
                 [(''color'', PyStr color'), (''linestyle'', PyStr linestyle)]) p
      else if use_linecollection \<and> orientation = ''vertical'' then
        p\<lparr>vertical_linecollections := vertical_linecollections p @
            [\<lparr>segment = ((x_here, y_bot), (x_here, y_top)), lc_color = color', lc_lw = lw,
              lc_linestyle = linestyle\<rparr>]\<rparr>
      else p)"

text \<open>
  The variables of \<open>draw\<close> that its closures \<open>draw_clade\<close> and \<open>draw_clade_polar\<close>
  refer to: the environment, the tree, the two layouts, the two functions chosen from the
  options, and the arguments \<open>label_func\<close>, \<open>orient_tree\<close>, the two directions,
  \<open>circular_span\<close>, \<open>draw_labels\<close> and \<open>align_labels\<close>.
\<close>

record ctx =
  cx_env :: env
  cx_tree :: tree
  x_posns :: "real dict"
  y_posns :: "real dict"
  format_branch_label :: "clade \<Rightarrow> string option"
  get_label_color :: "string \<Rightarrow> string"
  cx_label_func :: "clade \<Rightarrow> string option"
  cx_orient_tree :: string
  cx_horizontal_direction :: string
  cx_vertical_direction :: string
  cx_circular_span :: real
  cx_draw_labels :: bool
  cx_align_labels :: bool

definition in_terminals :: "ctx \<Rightarrow> clade \<Rightarrow> bool" where
  \<comment> \<open>\<open>clade in tree.get_terminals()\<close>\<close>
  "in_terminals cx c = (cid c \<in> cid ` set (get_terminals (cx_tree cx)))"

definition shown_label :: "string option \<Rightarrow> bool" where
  \<comment> \<open>\<open>label not in (None, clade.__class__.__name__)\<close>\<close>
  "shown_label label = (label \<noteq> None \<and> label \<noteq> Some class_name)"

definition own_color :: "clade \<Rightarrow> string \<Rightarrow> string" where
  \<comment> \<open>lines 450 and 451: the colour of the clade, or the colour handed down\<close>
  "own_color c color' = (case color (info c) of Some h \<Rightarrow> h | None \<Rightarrow> color')"

definition own_lw :: "ctx \<Rightarrow> clade \<Rightarrow> real \<Rightarrow> real" where
  \<comment> \<open>lines 452 and 453\<close>
  "own_lw cx c lw = (case width (info c) of Some w \<Rightarrow> w * rc_linewidth (cx_env cx) | None \<Rightarrow> lw)"

text \<open>
  The body of \<open>draw_clade\<close> for the vertical orientation, up to the loop over the
  children (lines 455 to 526). \<open>color'\<close> and \<open>lw\<close> are the values after lines 450 to 453.
\<close>

definition draw_clade_vertical :: "ctx \<Rightarrow> clade \<Rightarrow> real \<Rightarrow> real \<Rightarrow> real \<Rightarrow> real \<Rightarrow> string \<Rightarrow> real \<Rightarrow> plot \<Rightarrow> plot outcome" where
  "draw_clade_vertical cx c x_start x_here y_here xmax color' lw p =
     (let p1 = draw_clade_lines True ''horizontal'' y_here x_start x_here 0 0 color' lw ''solid'' p;
          p2 = (if in_terminals cx c \<and> cx_align_labels cx
                then draw_clade_lines True ''horizontal'' y_here x_here xmax 0 0 color' (lw - 1) ''-.'' p1
                else p1);
          label = cx_label_func cx c;
          p3 = (if shown_label label then
                  (let xplc = (if cx_align_labels cx \<and> in_terminals cx c then xmax + xmax / 30 else x_here)
                   in if cx_draw_labels cx then
                        issue (Call ''axes.text''
                                 [PyFloat xplc, PyFloat y_here, PyStr ('' '' @ the label)]
                                 [(''verticalalignment'', PyStr ''center''),
                                  (''horizontalalignment'',
                                     PyStr (if cx_vertical_direction cx = ''right'' then ''left'' else ''right'')),
                                  (''color'', PyStr (get_label_color cx (the label)))]) p2
                      else p2)
                else p2);
          p4 = (if cx_draw_labels cx then
                  (case format_branch_label cx c of
                     None \<Rightarrow> p3
                   | Some conf_label \<Rightarrow>
                       if conf_label \<noteq> [] then
                         issue (Call ''axes.text''
                                  [PyFloat (0.5 * (x_start + x_here)), PyFloat y_here, PyStr conf_label]
                                  [(''fontsize'', PyStr ''small''),
                                   (''horizontalalignment'', PyStr ''center'')]) p3
                       else p3)
                else p3)
      in if clades c = [] then Inr p4
         else and_then (raising p4 (lookup (y_posns cx) (hd (clades c)))) (\<lambda>y_top.
              and_then (raising p4 (lookup (y_posns cx) (last (clades c)))) (\<lambda>y_bot.
              Inr (draw_clade_lines True ''vertical'' 0 0 x_here y_bot y_top color' lw ''solid'' p4))))"

text \<open>
  The body of \<open>draw_clade\<close> for the horizontal orientation, up to the loop over the
  children (lines 531 to 603). The branch label is placed with
  \<open>y_posns[clade.clades[-1]]\<close>, which raises \<open>IndexError\<close> for a clade without
  children.
\<close>

definition draw_clade_horizontal :: "ctx \<Rightarrow> clade \<Rightarrow> real \<Rightarrow> real \<Rightarrow> real \<Rightarrow> real \<Rightarrow> string \<Rightarrow> real \<Rightarrow> plot \<Rightarrow> plot outcome" where
  "draw_clade_horizontal cx c x_start x_here y_here xmax color' lw p =
     (let p1 = draw_clade_lines True ''vertical'' 0 0 y_here x_start x_here color' lw ''solid'' p;
          p2 = (if in_terminals cx c \<and> cx_align_labels cx
                then draw_clade_lines True ''vertical'' 0 0 y_here x_here xmax color' (lw - 1) ''-.'' p1
                else p1);
          label = cx_label_func cx c;
          p3 = (if shown_label label then
                  (let xplc = (if cx_align_labels cx \<and> in_terminals cx c then xmax + xmax / 30 else x_here)
                   in if cx_draw_labels cx then
                        issue (Call ''axes.text''
                                 [PyFloat y_here, PyFloat xplc, PyStr ('' '' @ the label)]
                                 [(''verticalalignment'',
                                     PyStr (if cx_horizontal_direction cx = ''up'' then ''bottom'' else ''top'')),
                                  (''horizontalalignment'', PyStr ''center''),
                                  (''color'', PyStr (get_label_color cx (the label))),
                                  (''rotation'', PyInt 90)]) p2
                      else p2)
                else p2)
      in and_then
           (if cx_draw_labels cx then
              (case format_branch_label cx c of
                 None \<Rightarrow> Inr p3
               | Some conf_label \<Rightarrow>
                   if conf_label \<noteq> [] then
                     (if clades c = [] then Inl (IndexError, p3)
                      else and_then (raising p3 (lookup (y_posns cx) (last (clades c)))) (\<lambda>y_last.
                           Inr (issue (Call ''axes.text''
                                         [PyFloat (0.5 * (y_last + y_here)), PyFloat x_here, PyStr conf_label]
                                         [(''fontsize'', PyStr ''small''),
                                          (''horizontalalignment'', PyStr ''center'')]) p3)))
                   else Inr p3)
            else Inr p3)
           (\<lambda>p4.
              if clades c = [] then Inr p4
              else and_then (raising p4 (lookup (y_posns cx) (hd (clades c)))) (\<lambda>y_top.
                   and_then (raising p4 (lookup (y_posns cx) (last (clades c)))) (\<lambda>y_bot.
                   Inr (draw_clade_lines True ''horizontal'' x_here y_bot y_top 0 0 color' lw ''solid'' p4)))))"

text \<open>
  \<open>draw_clade\<close> up to the loop over the children: the positions of the clade (lines
  446 to 448), then the body of its orientation. With any other orientation nothing is
  drawn.
\<close>

definition draw_clade_here :: "ctx \<Rightarrow> clade \<Rightarrow> real \<Rightarrow> string \<Rightarrow> real \<Rightarrow> plot \<Rightarrow> (plot \<times> real) outcome" where
  "draw_clade_here cx c x_start color' lw p =
     and_then (raising p (lookup (x_posns cx) c)) (\<lambda>x_here.
     and_then (raising p (lookup (y_posns cx) c)) (\<lambda>y_here.
     and_then (raising p (py_max (dict_values (x_posns cx)))) (\<lambda>xmax.
       if cx_orient_tree cx = ''vertical'' then
         and_then (draw_clade_vertical cx c x_start x_here y_here xmax (own_color c color') (own_lw cx c lw) p)
           (\<lambda>p'. Inr (p', x_here))
       else if cx_orient_tree cx = ''horizontal'' then
         and_then (draw_clade_horizontal cx c x_start x_here y_here xmax (own_color c color') (own_lw cx c lw) p)
           (\<lambda>p'. Inr (p', x_here))
       else Inr (p, x_here))))"

fun draw_clade :: "ctx \<Rightarrow> clade \<Rightarrow> real \<Rightarrow> string \<Rightarrow> real \<Rightarrow> plot \<Rightarrow> plot outcome"
  and draw_descendents :: "ctx \<Rightarrow> clade list \<Rightarrow> real \<Rightarrow> string \<Rightarrow> real \<Rightarrow> plot \<Rightarrow> plot outcome" where
  "draw_clade cx (Clade a cs) x_start color' lw p =
     (case draw_clade_here cx (Clade a cs) x_start color' lw p of
        Inl e \<Rightarrow> Inl e
      | Inr (p', x_here) \<Rightarrow>
          if cs \<noteq> [] \<and> cx_orient_tree cx \<in> set [''vertical'', ''horizontal'']
          then draw_descendents cx cs x_here (own_color (Clade a cs) color') (own_lw cx (Clade a cs) lw) p'
          else Inr p')"
| "draw_descendents cx [] x_start color' lw p = Inr p"
| "draw_descendents cx (child # rest) x_start color' lw p =
     (case draw_clade cx child x_start color' lw p of
        Inl e \<Rightarrow> Inl e
      | Inr p' \<Rightarrow> draw_descendents cx rest x_start color' lw p')"

section \<open>\<open>draw\<close>: the circular layout\<close>

definition linspace :: "real \<Rightarrow> real \<Rightarrow> nat \<Rightarrow> real list" where
  \<comment> \<open>\<open>np.linspace(a, b, n)\<close> for \<open>n > 1\<close>\<close>
  "linspace a b n = map (\<lambda>i. a + real i * (b - a) / real (n - 1)) [0..<n]"

definition polar_alignment :: "real \<Rightarrow> string \<times> string \<times> real" where
  \<comment> \<open>lines 653 to 660: \<open>va\<close>, \<open>ha\<close> and the rotation of a label\<close>
  "polar_alignment rot =
     (if rot \<le> 90 then (''center'', ''left'', rot)
      else if rot \<le> 180 then (''center'', ''right'', rot - 180)
      else if rot \<le> 270 then (''center'', ''right'', rot - 180)
      else (''center'', ''left'', rot))"

definition label_value :: "string option \<Rightarrow> pyval" where
  "label_value label = (case label of None \<Rightarrow> PyNone | Some s \<Rightarrow> PyStr s)"

text \<open>
  \<open>draw_clade_polar\<close> up to the loop over the children (lines 611 to 688), in four
  parts: the line of the branch (lines 637 to 642), the label (lines 645 to 663), the arc
  that joins the children with the list \<open>locs\<close> (lines 666 to 688), and the whole with
  the imports and the scaling (lines 611 to 634). The whole returns the plot, \<open>x_here\<close>,
  \<open>locs\<close> and \<open>rad\<close>, which the loop reads.
\<close>

definition polar_branch :: "ctx \<Rightarrow> clade \<Rightarrow> string \<Rightarrow> real \<Rightarrow> real \<Rightarrow> real \<Rightarrow> real \<Rightarrow> real \<Rightarrow> real \<Rightarrow> plot \<Rightarrow> plot" where
  "polar_branch cx c color' lw x_start y_start x_here y_here xmax p =
     (let p1 = issue (Call ''axes.plot''
                        [PyList [PyFloat y_start, PyFloat y_here], PyList [PyFloat x_start, PyFloat x_here]]
                        [(''color'', PyStr color'), (''lw'', PyFloat lw)]) p
      in if in_terminals cx c \<and> cx_align_labels cx
         then issue (Call ''axes.plot''
                       [PyList [PyFloat y_start, PyFloat y_here], PyList [PyFloat x_here, PyFloat xmax]]
                       [(''color'', PyStr color'), (''lw'', PyFloat (lw - 1)),
                        (''linestyle'', PyStr ''-.'')]) p1
         else p1)"

definition polar_label :: "ctx \<Rightarrow> clade \<Rightarrow> real \<Rightarrow> real \<Rightarrow> real \<Rightarrow> plot \<Rightarrow> plot" where
  "polar_label cx c x_here y_here xmax p =
     (let rot = y_here * (180 / pi);
          label = cx_label_func cx c
      in if shown_label (name (info c)) then
           (let xplc = (if cx_align_labels cx \<and> in_terminals cx c then xmax else x_here);
                (va, ha, rot') = polar_alignment rot
            in if cx_draw_labels cx then
                 issue (Call ''axes.text''
                          [PyFloat y_here, PyFloat xplc, label_value label]
                          [(''color'', PyStr ''k''), (''rotation'', PyFloat rot'),
                           (''rotation_mode'', PyStr ''anchor''), (''va'', PyStr va),
                           (''ha'', PyStr ha)]) p
               else p)
         else p)"

definition polar_arc :: "ctx \<Rightarrow> clade \<Rightarrow> string \<Rightarrow> real \<Rightarrow> real \<Rightarrow> real \<Rightarrow> plot \<Rightarrow> (plot \<times> real list) outcome" where
  "polar_arc cx c color' lw x_here yang p =
     and_then (raising p (lookup (y_posns cx) (hd (clades c)))) (\<lambda>y_first.
     and_then (raising p (lookup (y_posns cx) (last (clades c)))) (\<lambda>y_last.
     (let y_top = y_first * yang * pi / 180;
          y_bot = y_last * yang * pi / 180;
          x = linspace y_bot y_top 500
      in and_then (raising p (interp1d (cx_env cx) [y_bot, y_top] [x_here, x_here] x)) (\<lambda>ys.
         (let p4 = issue (Call ''axes.plot''
                            [PyList (map PyFloat x), PyList (map PyFloat ys)]
                            [(''color'', PyStr color'), (''lw'', PyFloat lw)]) p;
              ymin = Min (set x);
              ymax = Max (set x);
              ydiff = ymax - ymin;
              c1 = int (length (clades c)) - 2;
              locs = [ymin] @ replicate (nat c1) (ydiff / real_of_int (c1 + 1) + ymin) @ [ymax]
          in Inr (p4, locs))))))"

definition draw_clade_polar_here ::
  "ctx \<Rightarrow> clade \<Rightarrow> string \<Rightarrow> real \<Rightarrow> real \<Rightarrow> real \<Rightarrow> plot \<Rightarrow> (plot \<times> real \<times> real list \<times> real) outcome" where
  "draw_clade_polar_here cx c color' lw x_start y_start p =
     (if \<not> numpy_available (cx_env cx) then
        Inl (MissingPythonDependencyError ''Install numpy if you want to draw a circular tree.'', p)
      else if \<not> scipy_available (cx_env cx) then
        Inl (MissingPythonDependencyError ''Install scipy if you want to draw a circular tree.'', p)
      else
        and_then (raising p (py_max (dict_values (y_posns cx)))) (\<lambda>ymax.
        if ymax = 0 then Inl (ZeroDivisionError, p)
        else
        and_then (raising p (py_max (dict_values (x_posns cx)))) (\<lambda>mx.
        and_then (raising p (lookup (x_posns cx) c)) (\<lambda>x_here.
        and_then (raising p (lookup (y_posns cx) c)) (\<lambda>y.
        (let yang = cx_circular_span cx / ymax;
             xmax = mx + mx / 30;
             rad = (cx_circular_span cx * pi / 180) / ymax;
             y_here = y * rad;
             p3 = polar_label cx c x_here y_here xmax
                    (polar_branch cx c color' lw x_start y_start x_here y_here xmax p)
         in if clades c = [] then Inr (p3, x_here, [], rad)
            else and_then (polar_arc cx c color' lw x_here yang p3) (\<lambda>(p4, locs).
                 Inr (p4, x_here, locs, rad))))))))"

fun draw_clade_polar :: "ctx \<Rightarrow> clade \<Rightarrow> string \<Rightarrow> real \<Rightarrow> real \<Rightarrow> real \<Rightarrow> plot \<Rightarrow> plot outcome"
  and draw_children_polar ::
    "ctx \<Rightarrow> clade list \<Rightarrow> real list \<Rightarrow> nat \<Rightarrow> real \<Rightarrow> string \<Rightarrow> real \<Rightarrow> real \<Rightarrow> plot \<Rightarrow> plot outcome" where
  "draw_clade_polar cx (Clade a cs) color' lw x_start y_start p =
     (case draw_clade_polar_here cx (Clade a cs) color' lw x_start y_start p of
        Inl e \<Rightarrow> Inl e
      | Inr (p', x_here, locs, rad) \<Rightarrow>
          if cs = [] then Inr p'
          else draw_children_polar cx cs locs 0 rad color' lw x_here p')"
| "draw_children_polar cx [] locs count rad color' lw x_here p = Inr p"
| "draw_children_polar cx (child # rest) locs count rad color' lw x_here p =
     (case (if in_terminals cx child
            then (case lookup (y_posns cx) child of
                    Inl e \<Rightarrow> Inl (e, p)
                  | Inr y \<Rightarrow> Inr (y * rad))
            else (if count < length locs then Inr (locs ! count) else Inl (IndexError, p))) of
        Inl e \<Rightarrow> Inl e
      | Inr y_start \<Rightarrow>
          (case draw_clade_polar cx child color' lw x_here y_start p of
             Inl e \<Rightarrow> Inl e
           | Inr p' \<Rightarrow> draw_children_polar cx rest locs (count + 1) rad color' lw x_here p'))"

section \<open>\<open>draw\<close>: the function\<close>

definition setup_axes :: "draw_args \<Rightarrow> plot \<Rightarrow> plot outcome" where
  \<comment> \<open>lines 396 to 408\<close>
  "setup_axes args p =
     (case axes args of
        None \<Rightarrow>
          (let p1 = issue (Call ''plt.figure'' [] []) p;
               p2 = issue (Call ''fig.add_subplot'' [PyInt 1, PyInt 1, PyInt 1] []) p1
           in if orient_tree args = ''circular'' then
                Inr (issue (Call ''axes.set_yticklabels'' [PyList []] [])
                    (issue (Call ''axes.set_xticks'' [PyList []] [])
                    (issue (Call ''axes.yaxis.grid'' [PyBool False] [])
                    (issue (Call ''fig.add_subplot'' [PyInt 1, PyInt 1, PyInt 1]
                              [(''projection'', PyStr ''polar'')]) p2))))
              else Inr p2)
      | Some ax \<Rightarrow>
          if orient_tree args = ''circular'' then
            (case axes_name ax of
               None \<Rightarrow> Inl (AttributeError ''name'', p)
             | Some n \<Rightarrow>
                 if n \<noteq> ''polar'' then
                   Inl (ValueError (''Axes '' @ axes_str ax @ '' must have projection=''
                                    @ quoted ''polar'' @ '' for a circular plot''), p)
                 else Inr p)
          else if \<not> is_Axes ax then
            Inl (ValueError (''Invalid argument for axes: '' @ axes_str ax), p)
          else Inr p)"

definition add_collections :: "plot \<Rightarrow> plot" where
  \<comment> \<open>lines 708 to 711\<close>
  "add_collections p =
     (let p1 = foldl (\<lambda>q i. issue (AddCollection i) q) p (horizontal_linecollections p)
      in foldl (\<lambda>q i. issue (AddCollection i) q) p1 (vertical_linecollections p1))"

definition draw_oriented :: "ctx \<Rightarrow> plot \<Rightarrow> plot outcome" where
  \<comment> \<open>lines 704 to 750\<close>
  "draw_oriented cx p =
     (let lw0 = rc_linewidth (cx_env cx) in
      if cx_orient_tree cx \<in> set [''horizontal'', ''vertical''] then
        and_then (draw_clade cx (root_clade (cx_tree cx)) 0 ''k'' lw0 p) (\<lambda>p1.
        (let p2 = add_collections p1 in
         if cx_orient_tree cx = ''vertical'' then
           (let p3 = issue (Call ''axes.set_ylabel'' [PyStr ''taxa''] [])
                       (issue (Call ''axes.set_xlabel'' [PyStr ''branch length''] []) p2)
            in and_then (raising p3 (py_max (dict_values (y_posns cx)))) (\<lambda>ymax.
               (let p4 = issue (Call ''axes.set_ylim'' [PyFloat (ymax + 0.8), PyFloat 0.2] []) p3
                in and_then (raising p4 (py_max (dict_values (x_posns cx)))) (\<lambda>xmax.
                   Inr (issue (Call ''axes.set_xlim''
                                 (if cx_vertical_direction cx = ''right''
                                  then [PyFloat (- 0.05 * xmax), PyFloat (1.25 * xmax)]
                                  else [PyFloat (1.25 * xmax), PyFloat (- 0.05 * xmax)]) []) p4)))))
         else
           (let p3 = issue (Call ''axes.set_xlabel'' [PyStr ''taxa''] [])
                       (issue (Call ''axes.set_ylabel'' [PyStr ''branch length''] []) p2)
            in and_then (raising p3 (py_max (dict_values (y_posns cx)))) (\<lambda>ymax.
               (let p4 = issue (Call ''axes.set_xlim'' [PyFloat (ymax + 0.8), PyFloat 0.2] []) p3
                in and_then (raising p4 (py_max (dict_values (x_posns cx)))) (\<lambda>xmax.
                   Inr (issue (Call ''axes.set_ylim''
                                 (if cx_horizontal_direction cx = ''down'' \<and> cx_align_labels cx
                                  then [PyFloat (1.5 * xmax), PyFloat (- 0.05 * xmax)]
                                  else if cx_horizontal_direction cx = ''down''
                                  then [PyFloat (1.25 * xmax), PyFloat (- 0.05 * xmax)]
                                  else if cx_horizontal_direction cx = ''up'' \<and> cx_align_labels cx
                                  then [PyFloat (- 0.05 * xmax), PyFloat (1.6 * xmax)]
                                  else [PyFloat (- 0.05 * xmax), PyFloat (1.25 * xmax)]) []) p4)))))))
      else if cx_orient_tree cx = ''circular'' then
        and_then (draw_clade_polar cx (root_clade (cx_tree cx)) ''k'' lw0 0 0 p) (\<lambda>p1.
        and_then (raising p1 (py_max (dict_values (x_posns cx)))) (\<lambda>xmax.
        Inr (issue (Call ''axes.set_ylim''
                      [PyList [PyInt 0,
                               PyFloat (if cx_draw_labels cx \<and> cx_align_labels cx then 1.5 * xmax
                                        else if cx_draw_labels cx then 1.25 * xmax
                                        else xmax)]] []) p1)))
      else Inr p)"

definition set_title :: "tree \<Rightarrow> plot \<Rightarrow> plot" where
  \<comment> \<open>lines 755 to 761\<close>
  "set_title t p =
     (case tree_name t of
        None \<Rightarrow> p
      | Some n \<Rightarrow> if n \<noteq> [] then issue (Call ''axes.set_title'' [PyStr n] []) p else p)"

text \<open>
  \<open>draw\<close> up to the keyword options (lines 275 to 761): the imports, the validation
  of the orientation and the directions, the options, the layout, the axes and the
  drawing of the tree.
\<close>

definition draw_figure :: "env \<Rightarrow> tree \<Rightarrow> draw_args \<Rightarrow> plot outcome" where
  "draw_figure e t args =
     (if \<not> matplotlib_available e \<and> \<not> pylab_available e then
        Inl (MissingPythonDependencyError ''Install matplotlib or pylab if you want to use draw.'', new_plot)
      else if orient_tree args \<notin> set [''horizontal'', ''vertical'', ''circular''] then
        Inl (ValueError (''orient_tree must be one of '' @ quoted ''horizontal'' @ '', ''
                         @ quoted ''vertical'' @ '' or '' @ quoted ''circular''), new_plot)
      else if orient_tree args = ''vertical'' \<and> vertical_direction args \<notin> set [''right'', ''left''] then
        Inl (ValueError (''vertical_direction must be one of '' @ quoted ''right'' @ '' or ''
                         @ quoted ''left''), new_plot)
      else if orient_tree args = ''horizontal'' \<and> horizontal_direction args \<notin> set [''up'', ''down''] then
        Inl (ValueError (''horizontal_direction must be one of '' @ quoted ''up'' @ '' or ''
                         @ quoted ''down''), new_plot)
      else
        and_then (raising new_plot (select_format_branch_label e args)) (\<lambda>fbl.
        and_then (raising new_plot (get_x_positions t)) (\<lambda>xs.
        and_then (raising new_plot (get_y_positions t)) (\<lambda>ys.
        and_then (setup_axes args new_plot) (\<lambda>p.
        and_then (draw_oriented \<lparr>cx_env = e, cx_tree = t, x_posns = xs, y_posns = ys,
                                 format_branch_label = fbl,
                                 get_label_color = select_get_label_color args,
                                 cx_label_func = label_func args,
                                 cx_orient_tree = orient_tree args,
                                 cx_horizontal_direction = horizontal_direction args,
                                 cx_vertical_direction = vertical_direction args,
                                 cx_circular_span = circular_span args,
                                 cx_draw_labels = draw_labels args,
                                 cx_align_labels = align_labels args\<rparr> p) (\<lambda>p'.
        Inr (set_title t p')))))))"

section \<open>\<open>draw\<close>: the keyword options passed on to \<open>pyplot\<close>\<close>

definition py_iterable :: "pyval \<Rightarrow> bool" where
  \<comment> \<open>whether \<open>list(value)\<close> returns; it raises \<open>TypeError\<close> otherwise\<close>
  "py_iterable v =
     (case v of PyNone \<Rightarrow> False | PyBool b \<Rightarrow> False | PyInt i \<Rightarrow> False | PyFloat x \<Rightarrow> False
              | _ \<Rightarrow> True)"

definition py_list :: "pyval \<Rightarrow> pyval list" where
  \<comment> \<open>the items of an iterable value\<close>
  "py_list v =
     (case v of PyStr s \<Rightarrow> map (\<lambda>c. PyStr [c]) s | PyTuple xs \<Rightarrow> xs | PyList xs \<Rightarrow> xs
              | PyDict d \<Rightarrow> map (\<lambda>kv. PyStr (fst kv)) d | _ \<Rightarrow> [])"

definition py_getitem :: "pyval \<Rightarrow> nat \<Rightarrow> error + pyval" where
  \<comment> \<open>\<open>value[i]\<close> for \<open>i\<close> 0 or 1\<close>
  "py_getitem v i =
     (case v of
        PyDict d \<Rightarrow> Inl KeyError
      | _ \<Rightarrow> if py_iterable v
             then (if i < length (py_list v) then Inr (py_list v ! i) else Inl IndexError)
             else Inl (TypeError ''object is not subscriptable''))"

fun py_dict_items :: "pyval list \<Rightarrow> error + (string \<times> pyval) list" where
  \<comment> \<open>\<open>dict(items)\<close> of a sequence of pairs, as keyword arguments\<close>
  "py_dict_items [] = Inr []"
| "py_dict_items (item # rest) =
     (if \<not> py_iterable item then
        Inl (TypeError ''cannot convert dictionary update sequence element to a sequence'')
      else (case py_list item of
              [PyStr k, v] \<Rightarrow>
                (case py_dict_items rest of
                   Inl e \<Rightarrow> Inl e
                 | Inr d \<Rightarrow> Inr (AList.update k v (AList.delete k d)))
            | [k, v] \<Rightarrow> Inl (TypeError ''keywords must be strings'')
            | _ \<Rightarrow> Inl (ValueError ''dictionary update sequence element has the wrong length'')))"

definition py_dict :: "pyval \<Rightarrow> error + (string \<times> pyval) list" where
  \<comment> \<open>\<open>dict(value)\<close>, as keyword arguments\<close>
  "py_dict v =
     (case v of
        PyDict d \<Rightarrow> Inr d
      | _ \<Rightarrow> if py_iterable v then py_dict_items (py_list v)
             else Inl (TypeError ''object is not iterable''))"

definition kwarg_message :: "env \<Rightarrow> string \<Rightarrow> pyval \<Rightarrow> string" where
  \<comment> \<open>the message of lines 771 to 773; it names the key and the value\<close>
  "kwarg_message e key v =
     ''Keyword argument \"'' @ key @ ''='' @ py_str e v @ ''\" is not in the format ''
     @ ''pyplot_option_name=(tuple), pyplot_option_name=(tuple, dict),''
     @ '' or pyplot_option_name=(dict) ''"

definition pyplot_invoke :: "env \<Rightarrow> string \<Rightarrow> pyval list \<Rightarrow> (string \<times> pyval) list \<Rightarrow> plot \<Rightarrow> plot outcome" where
  \<comment> \<open>the call \<open>f(*args, **kw)\<close> of the function \<open>f\<close> of \<open>pyplot\<close>\<close>
  "pyplot_invoke e key args kw p =
     (case pyplot_call e key args kw of
        Some err \<Rightarrow> Inl (err, p)
      | None \<Rightarrow> Inr (issue (Call (''plt.'' @ key) args kw) p))"

text \<open>One round of the loop over \<open>kwargs.items()\<close> (lines 765 to 780).\<close>

definition pyplot_option :: "env \<Rightarrow> string \<Rightarrow> pyval \<Rightarrow> plot \<Rightarrow> plot outcome" where
  "pyplot_option e key v p =
     (if \<not> py_iterable v then Inl (ValueError (kwarg_message e key v), p)
      else (case v of
              PyDict d \<Rightarrow>
                if pyplot_has e key then pyplot_invoke e key [] d p
                else Inl (AttributeError key, p)
            | _ \<Rightarrow>
                and_then (raising p (py_getitem v 0)) (\<lambda>first.
                if \<not> pyplot_has e key then Inl (AttributeError key, p)
                else (case first of
                        PyTuple targs \<Rightarrow>
                          and_then (raising p (py_getitem v 1)) (\<lambda>second.
                          and_then (raising p (py_dict second)) (\<lambda>kw.
                          pyplot_invoke e key targs kw p))
                      | _ \<Rightarrow> pyplot_invoke e key (py_list v) [] p))))"

fun process_kwargs :: "env \<Rightarrow> (string \<times> pyval) list \<Rightarrow> plot \<Rightarrow> plot outcome" where
  "process_kwargs e [] p = Inr p"
| "process_kwargs e ((key, v) # rest) p =
     (case pyplot_option e key v p of
        Inl err \<Rightarrow> Inl err
      | Inr p' \<Rightarrow> process_kwargs e rest p')"

text \<open>
  Modelled from the spec: the body of the statement \<open>if do_show:\<close>, on which the
  source at hand ends. By the specification the show action of the plotting library is
  invoked.
\<close>

definition show_plot :: "plot \<Rightarrow> plot" where
  "show_plot p = issue (Call ''plt.show'' [] []) p"

text \<open>
  \<open>draw\<close>. Its result is the outcome on the plotting surface together with the tree
  as it is after the call; no statement of \<open>draw\<close> assigns to an attribute of a
  clade, so that tree is the tree passed in.
\<close>

definition draw :: "env \<Rightarrow> tree \<Rightarrow> draw_args \<Rightarrow> plot outcome \<times> tree" where
  "draw e t args =
     (and_then (draw_figure e t args) (\<lambda>p.
      and_then (process_kwargs e (kwargs args) p) (\<lambda>p'.
      Inr (if do_show args then show_plot p' else p'))),
      t)"

section \<open>\<open>to_networkx\<close>\<close>

text \<open>
  The graph of the external library networkx: its nodes, and its edges with their data.
  An edge of a clade to its child is keyed by the identities of the two clades.
\<close>

record edge_data =
  weight :: "real option"
  edge_color :: "string option"
  edge_width :: "real option"

record graph =
  directed :: bool
  nodes :: "nat list"
  edges :: "((nat \<times> nat) \<times> edge_data) list"

definition add_node :: "graph \<Rightarrow> nat \<Rightarrow> graph" where
  "add_node g n = (if n \<in> set (nodes g) then g else g\<lparr>nodes := nodes g @ [n]\<rparr>)"

definition graph_add_edge :: "graph \<Rightarrow> nat \<Rightarrow> nat \<Rightarrow> real option \<Rightarrow> graph" where
  \<comment> \<open>\<open>graph.add_edge(n1, n2, ...)\<close>: the edge and its weight, and the nodes when missing\<close>
  "graph_add_edge g n1 n2 w =
     (add_node (add_node g n1) n2)
       \<lparr>edges := AList.update (n1, n2) \<lparr>weight = w, edge_color = None, edge_width = None\<rparr> (edges g)\<rparr>"

definition set_edge_color :: "graph \<Rightarrow> nat \<Rightarrow> nat \<Rightarrow> string \<Rightarrow> graph" where
  \<comment> \<open>\<open>graph[n1][n2]["color"] = c\<close>\<close>
  "set_edge_color g n1 n2 c = g\<lparr>edges := AList.map_entry (n1, n2) (\<lambda>d. d\<lparr>edge_color := Some c\<rparr>) (edges g)\<rparr>"

definition set_edge_width :: "graph \<Rightarrow> nat \<Rightarrow> nat \<Rightarrow> real \<Rightarrow> graph" where
  \<comment> \<open>\<open>graph[n1][n2]["width"] = w\<close>\<close>
  "set_edge_width g n1 n2 w = g\<lparr>edges := AList.map_entry (n1, n2) (\<lambda>d. d\<lparr>edge_width := Some w\<rparr>) (edges g)\<rparr>"

fun py_str_le :: "string \<Rightarrow> string \<Rightarrow> bool" where
  \<comment> \<open>\<open>a <= b\<close> on Python strings: by code points, a prefix first\<close>
  "py_str_le [] ys = True"
| "py_str_le (x # xs) [] = False"
| "py_str_le (x # xs) (y # ys) =
     ((of_char x :: nat) < of_char y \<or> (x = y \<and> py_str_le xs ys))"

definition branch_weight :: "clade_info \<Rightarrow> real" where
  \<comment> \<open>\<open>n2.branch_length or 1.0\<close>\<close>
  "branch_weight n2 = (case branch_length n2 of None \<Rightarrow> 1 | Some l \<Rightarrow> if l = 0 then 1 else l)"

text \<open>
  The three definitions of \<open>add_edge\<close>, chosen by the version of networkx. The first
  assigns to \<open>n2.color\<close> and \<open>n2.width\<close>: the clade \<open>n2\<close> is returned as it is after
  the call.
\<close>

definition add_edge_1_0 :: "graph \<Rightarrow> clade_info \<Rightarrow> clade_info \<Rightarrow> graph \<times> clade_info" where
  \<comment> \<open>lines 42 to 57, for networkx 1.0 and later\<close>
  "add_edge_1_0 g n1 n2 =
     (let g1 = graph_add_edge g (ident n1) (ident n2) (Some (branch_weight n2));
          (g2, n2') =
            (case color n2 of
               Some c \<Rightarrow> (set_edge_color g1 (ident n1) (ident n2) c, n2)
             | None \<Rightarrow>
                 (case color n1 of
                    Some c \<Rightarrow> (set_edge_color g1 (ident n1) (ident n2) c, n2\<lparr>color := color n1\<rparr>)
                  | None \<Rightarrow> (g1, n2)))
      in (case width n2' of
            Some w \<Rightarrow> (set_edge_width g2 (ident n1) (ident n2) w, n2')
          | None \<Rightarrow>
              (case width n1 of
                 Some w \<Rightarrow> (set_edge_width g2 (ident n1) (ident n2) w, n2'\<lparr>width := width n1\<rparr>)
               | None \<Rightarrow> (g2, n2'))))"

definition add_edge_0_99 :: "graph \<Rightarrow> clade_info \<Rightarrow> clade_info \<Rightarrow> graph \<times> clade_info" where
  \<comment> \<open>lines 61 and 62\<close>
  "add_edge_0_99 g n1 n2 = (graph_add_edge g (ident n1) (ident n2) (Some (branch_weight n2)), n2)"

definition add_edge_old :: "graph \<Rightarrow> clade_info \<Rightarrow> clade_info \<Rightarrow> graph \<times> clade_info" where
  \<comment> \<open>lines 66 and 67\<close>
  "add_edge_old g n1 n2 = (graph_add_edge g (ident n1) (ident n2) None, n2)"

definition add_edge :: "string \<Rightarrow> graph \<Rightarrow> clade_info \<Rightarrow> clade_info \<Rightarrow> graph \<times> clade_info" where
  \<comment> \<open>lines 40 to 67: the definition in force for the version \<open>v\<close> of networkx\<close>
  "add_edge v =
     (if py_str_le ''1.0'' v then add_edge_1_0
      else if py_str_le ''0.99'' v then add_edge_0_99
      else add_edge_old)"

text \<open>
  \<open>build_subgraph(graph, top)\<close>: the loop over the children of \<open>top\<close>, whose
  attributes are \<open>top_info\<close>, and one round of it. Both return the graph and the
  clades they went through as they are after the call.
\<close>

fun build_subgraph :: "string \<Rightarrow> graph \<Rightarrow> clade_info \<Rightarrow> clade list \<Rightarrow> graph \<times> clade list"
  and build_subgraph_clade :: "string \<Rightarrow> graph \<Rightarrow> clade_info \<Rightarrow> clade \<Rightarrow> graph \<times> clade" where
  "build_subgraph v g top_info [] = (g, [])"
| "build_subgraph v g top_info (c # rest) =
     (case build_subgraph_clade v g top_info c of
        (g1, c') \<Rightarrow>
          (case build_subgraph v g1 top_info rest of
             (g2, rest') \<Rightarrow> (g2, c' # rest')))"
| "build_subgraph_clade v g top_info (Clade b bs) =
     (case add_edge v (add_node g (ident b)) top_info b of
        (g1, b') \<Rightarrow>
          (case build_subgraph v g1 b' bs of
             (g2, bs') \<Rightarrow> (g2, Clade b' bs')))"


section \<open>Auxiliary notions for the layout proofs\<close>

text \<open>
  The height a layout is meant to give a clade, by recursion over the tree: the value
  of the starting dictionary for a terminal, and \<open>half\<close> of the sum of the heights of
  the first and the last child for an internal clade. \<open>new_rows\<close> lists the entries
  the closure \<open>calc_row\<close> appends for the internal clades of a subtree, children before
  parents.
\<close>

fun ideal_height :: "('v \<Rightarrow> 'v) \<Rightarrow> ('v::plus) dict \<Rightarrow> clade \<Rightarrow> 'v" where
  "ideal_height half p (Clade a cs) =
     (if cs = [] then the (map_of p (ident a))
      else (let hs = map (ideal_height half p) cs in half (hd hs + last hs)))"

fun new_rows :: "('v \<Rightarrow> 'v) \<Rightarrow> ('v::plus) dict \<Rightarrow> clade \<Rightarrow> 'v dict"
  and new_rows_list :: "('v \<Rightarrow> 'v) \<Rightarrow> 'v dict \<Rightarrow> clade list \<Rightarrow> 'v dict" where
  "new_rows half p (Clade a cs) =
     (if cs = [] then [] else new_rows_list half p cs @ [(ident a, ideal_height half p (Clade a cs))])"
| "new_rows_list half p [] = []"
| "new_rows_list half p (c # cs) = new_rows half p c @ new_rows_list half p cs"

text \<open>
  The dictionary \<open>p\<close> holds the terminals of \<open>xs\<close> and none of its internal clades.
\<close>

definition base_ok :: "'v dict \<Rightarrow> clade list \<Rightarrow> bool" where
  "base_ok p xs \<longleftrightarrow> (\<forall>x \<in> set xs. (clades x = [] \<longrightarrow> cid x \<in> fst ` set p) \<and> (clades x \<noteq> [] \<longrightarrow> cid x \<notin> fst ` set p))"

text \<open>The dictionaries of the terminals the two height layouts start from.\<close>

definition heights0 :: "tree \<Rightarrow> real dict" where
  "heights0 t = map (\<lambda>(i, tip). (cid tip, real (count_terminals t) - real i))
                    (enumerate 0 (rev (get_terminals t)))"

definition positions0 :: "clade list \<Rightarrow> int dict" where
  "positions0 taxa = map (\<lambda>(idx, taxon). (cid taxon, 2 * int idx)) (enumerate 0 taxa)"

text \<open>
  The paths from a clade down to each clade of its subtree, as the lists of the clades
  passed; a path of \<open>n\<close> clades has \<open>n - 1\<close> edges.
\<close>

fun paths :: "clade \<Rightarrow> clade list list"
  and paths_list :: "clade list \<Rightarrow> clade list list" where
  "paths (Clade a cs) = [Clade a cs] # map ((#) (Clade a cs)) (paths_list cs)"
| "paths_list [] = []"
| "paths_list (c # cs) = paths c @ paths_list cs"

section \<open>Auxiliary notions for the proofs about \<open>draw\<close>\<close>

text \<open>
  The calls that draw: a line collection added to the axes, a plotted line, a text. A
  plot is drawn on when such a call has been issued; a plot extends another when its
  calls and its two lists of line collections extend the other's.
\<close>

definition is_drawing_call :: "call \<Rightarrow> bool" where
  "is_drawing_call c =
     (case c of
        AddCollection l \<Rightarrow> True
      | Call n a kw \<Rightarrow> n \<in> set [''axes.plot'', ''axes.text'', ''axes.hlines'', ''axes.vlines''])"

definition drawn :: "plot \<Rightarrow> bool" where
  "drawn p = list_ex is_drawing_call (calls p)"

definition extends :: "plot \<Rightarrow> plot \<Rightarrow> bool" where
  "extends p p' =
     ((\<exists>a. calls p' = calls p @ a) \<and>
      (\<exists>b. horizontal_linecollections p' = horizontal_linecollections p @ b) \<and>
      (\<exists>c. vertical_linecollections p' = vertical_linecollections p @ c))"



section \<open>Example trees\<close>

definition mk_info :: "nat \<Rightarrow> string option \<Rightarrow> real option \<Rightarrow> clade_info" where
  "mk_info i nm bl = \<lparr>ident = i, branch_length = bl, name = nm, confidence = None,
                      confidences = None, color = None, width = None\<rparr>"

text \<open>A tree of one node: the root is its only terminal.\<close>

definition ex_single :: tree where
  "ex_single = \<lparr>root_clade = Clade (mk_info 0 None None) [], rooted = True, tree_name = None\<rparr>"

text \<open>The tree \<open>(A, B)\<close>.\<close>

definition ex_pair :: tree where
  "ex_pair = \<lparr>root_clade = Clade (mk_info 0 None None)
                  [Clade (mk_info 1 (Some ''A'') None) [], Clade (mk_info 2 (Some ''B'') None) []],
               rooted = True, tree_name = None\<rparr>"

text \<open>The tree \<open>((A, B), C)\<close>.\<close>

definition ex_ab_c :: tree where
  "ex_ab_c = \<lparr>root_clade = Clade (mk_info 0 None None)
                  [Clade (mk_info 1 None None)
                     [Clade (mk_info 2 (Some ''A'') None) [], Clade (mk_info 3 (Some ''B'') None) []],
                   Clade (mk_info 4 (Some ''C'') None) []],
               rooted = True, tree_name = None\<rparr>"

text \<open>The balanced tree \<open>((A:1, B:1):1, (C:1, D:1):1)\<close> with unit branch lengths.\<close>

definition ex_balanced :: tree where
  "ex_balanced = \<lparr>root_clade = Clade (mk_info 0 None None)
                      [Clade (mk_info 1 None (Some 1))
                         [Clade (mk_info 2 (Some ''A'') (Some 1)) [],
                          Clade (mk_info 3 (Some ''B'') (Some 1)) []],
                       Clade (mk_info 4 None (Some 1))
                         [Clade (mk_info 5 (Some ''C'') (Some 1)) [],
                          Clade (mk_info 6 (Some ''D'') (Some 1)) []]],
                   rooted = True, tree_name = None\<rparr>"


text \<open>
  An environment with every library present: networkx 2.8, a line width of 1.5, a
  \<open>pyplot\<close> that has every name and accepts every call.
\<close>

fun decimal :: "nat \<Rightarrow> string" where
  "decimal n = (if n < 10 then [char_of (48 + n)] else decimal (n div 10) @ [char_of (48 + n mod 10)])"

definition ex_str :: "pyval \<Rightarrow> string" where
  "ex_str v = (case v of
                 PyNone \<Rightarrow> ''None''
               | PyInt i \<Rightarrow> (if i < 0 then ''-'' @ decimal (nat (- i)) else decimal (nat i))
               | PyStr s \<Rightarrow> s
               | _ \<Rightarrow> ''<object>'')"

definition ex_env :: env where
  "ex_env = \<lparr>matplotlib_available = True, pylab_available = True, numpy_available = True,
              scipy_available = True, networkx_version = Some ''2.8'', rc_linewidth = 3 / 2,
              py_str = ex_str, pyplot_has = (\<lambda>key. True), pyplot_call = (\<lambda>key args kw. None),
              interp1d = (\<lambda>xs ys x. Inr (map (\<lambda>v. hd ys) x))\<rparr>"

text \<open>\<open>draw\<close> with an orientation it does not know, and with a keyword option that is a number.\<close>

definition ex_args_diagonal :: draw_args where
  "ex_args_diagonal = default_args\<lparr>orient_tree := ''diagonal''\<rparr>"

definition ex_args_axvline :: draw_args where
  "ex_args_axvline = default_args\<lparr>kwargs := [(''axvline'', PyInt 5)]\<rparr>"

text \<open>
  The plot \<open>draw\<close> makes of the tree \<open>(A, B)\<close> with the default arguments, up to the
  keyword options, its branches in the colour \<open>col\<close>; and the variables its closures
  refer to.
\<close>

definition ex_plot :: "string \<Rightarrow> plot" where
  "ex_plot col =
     \<lparr>calls =
        [Call ''plt.figure'' [] [],
         Call ''fig.add_subplot'' [PyInt 1, PyInt 1, PyInt 1] [],
         Call ''axes.text'' [PyFloat 1, PyFloat 1, PyStr '' A'']
           [(''verticalalignment'', PyStr ''center''), (''horizontalalignment'', PyStr ''left''),
            (''color'', PyStr ''black'')],
         Call ''axes.text'' [PyFloat 1, PyFloat 2, PyStr '' B'']
           [(''verticalalignment'', PyStr ''center''), (''horizontalalignment'', PyStr ''left''),
            (''color'', PyStr ''black'')],
         AddCollection \<lparr>segment = ((0, 3 / 2), (0, 3 / 2)), lc_color = col, lc_lw = 3 / 2,
                          lc_linestyle = ''solid''\<rparr>,
         AddCollection \<lparr>segment = ((0, 1), (1, 1)), lc_color = col, lc_lw = 3 / 2,
                          lc_linestyle = ''solid''\<rparr>,
         AddCollection \<lparr>segment = ((0, 2), (1, 2)), lc_color = col, lc_lw = 3 / 2,
                          lc_linestyle = ''solid''\<rparr>,
         AddCollection \<lparr>segment = ((0, 2), (0, 1)), lc_color = col, lc_lw = 3 / 2,
                          lc_linestyle = ''solid''\<rparr>,
         Call ''axes.set_xlabel'' [PyStr ''branch length''] [],
         Call ''axes.set_ylabel'' [PyStr ''taxa''] [],
         Call ''axes.set_ylim'' [PyFloat (14 / 5), PyFloat (1 / 5)] [],
         Call ''axes.set_xlim'' [PyFloat (- (1 / 20)), PyFloat (5 / 4)] []],
      horizontal_linecollections =
        [\<lparr>segment = ((0, 3 / 2), (0, 3 / 2)), lc_color = col, lc_lw = 3 / 2, lc_linestyle = ''solid''\<rparr>,
         \<lparr>segment = ((0, 1), (1, 1)), lc_color = col, lc_lw = 3 / 2, lc_linestyle = ''solid''\<rparr>,
         \<lparr>segment = ((0, 2), (1, 2)), lc_color = col, lc_lw = 3 / 2, lc_linestyle = ''solid''\<rparr>],
      vertical_linecollections =
        [\<lparr>segment = ((0, 2), (0, 1)), lc_color = col, lc_lw = 3 / 2, lc_linestyle = ''solid''\<rparr>]\<rparr>"

definition ex_ctx :: "tree \<Rightarrow> ctx" where
  "ex_ctx t = \<lparr>cx_env = ex_env, cx_tree = t, x_posns = [(0, 0), (1, 1), (2, 1)],
      y_posns = [(2, 2), (1, 1), (0, 3 / 2)],
      format_branch_label = format_confidence ex_env,
      get_label_color = (\<lambda>label. ''black''),
      cx_label_func = (\<lambda>c. Some (str_clade c)), cx_orient_tree = ''vertical'',
      cx_horizontal_direction = ''down'', cx_vertical_direction = ''right'',
      cx_circular_span = 355, cx_draw_labels = True, cx_align_labels = False\<rparr>"

text \<open>The plot after \<open>draw\<close> has made its own figure and axes.\<close>

definition ex_axes :: plot where
  "ex_axes = \<lparr>calls = [Call ''plt.figure'' [] [], Call ''fig.add_subplot'' [PyInt 1, PyInt 1, PyInt 1] []],
    horizontal_linecollections = [], vertical_linecollections = []\<rparr>"

section \<open>Lemmas about the layout\<close>

lemma update_fresh: "k \<notin> fst ` set d \<Longrightarrow> AList.update k v d = d @ [(k, v)]"
  by (induction d) auto

lemma foldl_update_distinct:
  "distinct (map fst (d @ items)) \<Longrightarrow> foldl (\<lambda>d (k, v). AList.update k v d) d items = d @ items"
proof (induction items arbitrary: d)
  case Nil
  then show ?case by simp
next
  case (Cons x xs)
  obtain k v where x: "x = (k, v)" by (cases x)
  from Cons.prems have "k \<notin> fst ` set d" by (auto simp: x)
  then have "AList.update k v d = d @ [(k, v)]" by (rule update_fresh)
  moreover from Cons.prems have "distinct (map fst ((d @ [(k, v)]) @ xs))" by (simp add: x)
  ultimately show ?case using Cons.IH [of "d @ [(k, v)]"] by (simp add: x)
qed

lemma dict_of_distinct: "distinct (map fst items) \<Longrightarrow> dict_of items = items"
  using foldl_update_distinct [of "[]" items] by (simp add: dict_of_def)

lemma find_clades_self: "c \<in> set (find_clades c)"
  by (cases c) simp

lemma find_clades_list_mem:
  "x \<in> set (find_clades_list cs) \<longleftrightarrow> (\<exists>c \<in> set cs. x \<in> set (find_clades c))"
  by (induction cs) auto

lemma find_clades_trans:
  "x \<in> set (find_clades c) \<Longrightarrow> y \<in> set (find_clades x) \<Longrightarrow> y \<in> set (find_clades c)"
  and "x \<in> set (find_clades_list cs) \<Longrightarrow> y \<in> set (find_clades x) \<Longrightarrow> y \<in> set (find_clades_list cs)"
  by (induction c and cs rule: find_clades_find_clades_list.induct) auto

lemma new_rows_keys:
  "fst ` set (new_rows half p c) \<subseteq> cid ` {x \<in> set (find_clades c). clades x \<noteq> []}"
  "fst ` set (new_rows_list half p cs) \<subseteq> cid ` {x \<in> set (find_clades_list cs). clades x \<noteq> []}"
  by (induction half p c and half p cs rule: new_rows_new_rows_list.induct) (auto simp: image_Un, force+)

lemma new_rows_distinct:
  "distinct (map cid (find_clades c)) \<Longrightarrow> distinct (map fst (new_rows half p c))"
  "distinct (map cid (find_clades_list cs)) \<Longrightarrow> distinct (map fst (new_rows_list half p cs))"
proof (induction half p c and half p cs rule: new_rows_new_rows_list.induct)
  case (1 half p a cs)
  then show ?case using new_rows_keys(2) [of half p cs] by (auto simp: image_iff subset_iff)
next
  case (2 half p)
  then show ?case by simp
next
  case (3 half p c cs)
  have "set (map fst (new_rows half p c)) \<inter> set (map fst (new_rows_list half p cs)) = {}"
    using 3(3) new_rows_keys(1) [of half p c] new_rows_keys(2) [of half p cs] by auto
  then show ?case using 3 by simp
qed

lemma map_of_append_dom: "k \<in> fst ` set p \<Longrightarrow> map_of (p @ q) k = map_of p k"
  by (auto simp: map_add_def split: option.splits dest: map_of_SomeD weak_map_of_SomeI)

lemma child_sub: "x \<in> set cs \<Longrightarrow> set (find_clades x) \<subseteq> set (find_clades_list cs)"
  by (auto simp: find_clades_list_mem)

lemma ideal_height_append:
  "\<forall>x \<in> set (find_clades c). clades x = [] \<longrightarrow> cid x \<in> fst ` set p \<Longrightarrow>
   ideal_height half (p @ q) c = ideal_height half p c"
proof (induction half p c rule: ideal_height.induct)
  case (1 half p a cs)
  show ?case
  proof (cases "cs = []")
    case True
    with 1(2) show ?thesis by (simp del: map_of_append add: map_of_append_dom)
  next
    case False
    have "map (ideal_height half (p @ q)) cs = map (ideal_height half p) cs"
    proof (rule map_cong [OF refl])
      fix x assume x: "x \<in> set cs"
      have "\<forall>y \<in> set (find_clades x). clades y = [] \<longrightarrow> cid y \<in> fst ` set p"
        using 1(2) child_sub [OF x] by auto
      with 1(1) [OF False x] show "ideal_height half (p @ q) x = ideal_height half p x" by simp
    qed
    with False show ?thesis by (simp add: Let_def hd_map last_map)
  qed
qed

lemma base_ok_sub: "base_ok p xs \<Longrightarrow> set ys \<subseteq> set xs \<Longrightarrow> base_ok p ys"
  by (auto simp: base_ok_def)

lemma new_rows_append:
  "\<forall>x \<in> set (find_clades c). clades x = [] \<longrightarrow> cid x \<in> fst ` set p \<Longrightarrow>
   new_rows half (p @ q) c = new_rows half p c"
  "\<forall>x \<in> set (find_clades_list cs). clades x = [] \<longrightarrow> cid x \<in> fst ` set p \<Longrightarrow>
   new_rows_list half (p @ q) cs = new_rows_list half p cs"
proof (induction half p c and half p cs rule: new_rows_new_rows_list.induct)
  case (1 half p a cs)
  then show ?case using ideal_height_append [of "Clade a cs" p half q] by auto
next
  case (2 half p)
  then show ?case by simp
next
  case (3 half p c cs)
  then show ?case by simp
qed

lemma new_rows_entry:
  "x \<in> set (find_clades c) \<Longrightarrow> clades x \<noteq> [] \<Longrightarrow>
   (cid x, ideal_height half p x) \<in> set (new_rows half p c)"
  "x \<in> set (find_clades_list cs) \<Longrightarrow> clades x \<noteq> [] \<Longrightarrow>
   (cid x, ideal_height half p x) \<in> set (new_rows_list half p cs)"
  by (induction half p c and half p cs rule: new_rows_new_rows_list.induct) auto

lemma lookup_new_rows_list:
  assumes d: "distinct (map cid (find_clades_list cs))"
    and ok: "base_ok p (find_clades_list cs)"
    and x: "x \<in> set (find_clades_list cs)"
  shows "map_of (p @ new_rows_list half p cs) (cid x) = Some (ideal_height half p x)"
proof (cases "clades x = []")
  case True
  with ok x have k: "cid x \<in> fst ` set p" by (auto simp: base_ok_def)
  then obtain v where v: "map_of p (cid x) = Some v"
    by (metis domD dom_map_of_conv_image_fst)
  from True have "ideal_height half p x = the (map_of p (cid x))" by (cases x) simp
  with v k show ?thesis by (simp del: map_of_append add: map_of_append_dom)
next
  case False
  with ok x have k: "cid x \<notin> fst ` set p" by (auto simp: base_ok_def)
  then have n: "map_of p (cid x) = None" by (simp add: map_of_eq_None_iff)
  have "map_of (new_rows_list half p cs) (cid x) = Some (ideal_height half p x)"
    by (rule map_of_is_SomeI [OF new_rows_distinct(2) [OF d] new_rows_entry(2) [OF x False]])
  with n show ?thesis by (simp add: map_add_def)
qed

lemma base_ok_extend:
  assumes ok: "base_ok p (find_clades c @ find_clades_list cs)"
    and d: "distinct (map cid (find_clades c @ find_clades_list cs))"
  shows "base_ok (p @ new_rows half p c) (find_clades_list cs)"
proof -
  have "cid x \<notin> fst ` set (new_rows half p c)" if "x \<in> set (find_clades_list cs)" for x
  proof
    assume "cid x \<in> fst ` set (new_rows half p c)"
    with new_rows_keys(1) [of half p c] obtain y where "y \<in> set (find_clades c)" "cid y = cid x"
      by auto
    with d that show False by auto
  qed
  with ok show ?thesis by (auto simp: base_ok_def image_Un)
qed

lemma calc_row_by_char:
  "distinct (map cid (find_clades c)) \<Longrightarrow> base_ok p (find_clades c) \<Longrightarrow> clades c \<noteq> [] \<Longrightarrow>
   calc_row_by half c p = Inr (p @ new_rows half p c)"
  "distinct (map cid (find_clades_list cs)) \<Longrightarrow> base_ok p (find_clades_list cs) \<Longrightarrow>
   calc_row_subclades half cs p = Inr (p @ new_rows_list half p cs)"
proof (induction half c p and half cs p rule: calc_row_by_calc_row_subclades.induct)
  case (1 half a cs p)
  let ?p' = "p @ new_rows_list half p cs"
  from 1(2) have d: "distinct (map cid (find_clades_list cs))" by simp
  from 1(3) have ok: "base_ok p (find_clades_list cs)" by (auto simp: base_ok_def)
  from 1(4) have ne: "cs \<noteq> []" by simp
  have loop: "calc_row_subclades half cs p = Inr ?p'" by (rule 1(1) [OF d ok])
  have "hd cs \<in> set (find_clades_list cs)" "last cs \<in> set (find_clades_list cs)"
    using ne find_clades_self [of "hd cs"] find_clades_self [of "last cs"]
    by (auto simp: find_clades_list_mem intro: bexI [of _ "hd cs"] bexI [of _ "last cs"])
  then have y0: "map_of ?p' (cid (hd cs)) = Some (ideal_height half p (hd cs))"
    and y1: "map_of ?p' (cid (last cs)) = Some (ideal_height half p (last cs))"
    using lookup_new_rows_list [OF d ok] by blast+
  have "ident a \<notin> fst ` set p" using 1(3) ne by (auto simp: base_ok_def)
  moreover have "ident a \<notin> fst ` set (new_rows_list half p cs)"
    using new_rows_keys(2) [of half p cs] 1(2) by auto
  ultimately have fresh: "ident a \<notin> fst ` set ?p'" by (auto simp: image_Un)
  show ?case
    using ne loop y0 y1 update_fresh [OF fresh]
    by (simp add: Let_def hd_map last_map del: map_of_append)
next
  case (2 half p)
  then show ?case by simp
next
  case (3 half subclade rest p)
  from 3(4) have ds: "distinct (map cid (find_clades subclade))"
    and dr: "distinct (map cid (find_clades_list rest))" by simp_all
  from 3(5) have oks: "base_ok p (find_clades subclade)"
    and okr: "base_ok p (find_clades_list rest)" by (auto simp: base_ok_def)
  have self: "subclade \<in> set (find_clades subclade)" by (rule find_clades_self)
  show ?case
  proof (cases "clades subclade = []")
    case True
    with oks self have "cid subclade \<in> fst ` set p" by (auto simp: base_ok_def)
    then have "map_of p (cid subclade) \<noteq> None" by (simp add: map_of_eq_None_iff)
    moreover from True have "new_rows half p subclade = []" by (cases subclade) simp
    ultimately show ?thesis using 3(3) [OF _ dr okr] by auto
  next
    case False
    with oks self have "cid subclade \<notin> fst ` set p" by (auto simp: base_ok_def)
    then have n: "map_of p (cid subclade) = None" by (simp add: map_of_eq_None_iff)
    let ?p' = "p @ new_rows half p subclade"
    have s: "calc_row_by half subclade p = Inr ?p'" by (rule 3(1) [OF n ds oks False])
    have ok': "base_ok ?p' (find_clades_list rest)"
      using base_ok_extend [of p subclade rest half] 3(4) 3(5) by simp
    have "calc_row_subclades half rest ?p' = Inr (?p' @ new_rows_list half ?p' rest)"
      by (rule 3(2) [OF n s dr ok'])
    moreover have "new_rows_list half ?p' rest = new_rows_list half p rest"
      using okr by (intro new_rows_append(2)) (auto simp: base_ok_def)
    ultimately show ?thesis using n s by simp
  qed
qed

lemma ideal_height_internal:
  "clades c \<noteq> [] \<Longrightarrow>
   ideal_height half p c = half (ideal_height half p (hd (clades c)) + ideal_height half p (last (clades c)))"
  by (cases c) (simp add: Let_def hd_map last_map)

lemma new_rows_terminal: "clades c = [] \<Longrightarrow> new_rows half p c = []"
  by (cases c) simp

lemma lookup_new_rows:
  assumes d: "distinct (map cid (find_clades c))"
    and ok: "base_ok p (find_clades c)"
    and x: "x \<in> set (find_clades c)"
  shows "map_of (p @ new_rows half p c) (cid x) = Some (ideal_height half p x)"
  using lookup_new_rows_list [of "[c]" p x half] d ok x by simp

lemma children_in_tree:
  assumes "c \<in> set (find_clades r)" "clades c \<noteq> []"
  shows "hd (clades c) \<in> set (find_clades r)" "last (clades c) \<in> set (find_clades r)"
proof -
  obtain a cs where c: "c = Clade a cs" by (cases c)
  with assms(2) have "hd cs \<in> set (find_clades c)" "last cs \<in> set (find_clades c)"
    using find_clades_self [of "hd cs"] find_clades_self [of "last cs"]
    by (auto simp: find_clades_list_mem intro: bexI [of _ "hd cs"] bexI [of _ "last cs"])
  with assms(1) c show "hd (clades c) \<in> set (find_clades r)" "last (clades c) \<in> set (find_clades r)"
    using find_clades_trans(1) by auto
qed

lemma rows_midpoint:
  assumes d: "distinct (map cid (find_clades r))"
    and ok: "base_ok p (find_clades r)"
    and c: "c \<in> set (find_clades r)" "clades c \<noteq> []"
  shows "\<exists>y0 y1. map_of (p @ new_rows half p r) (cid (hd (clades c))) = Some y0 \<and>
                 map_of (p @ new_rows half p r) (cid (last (clades c))) = Some y1 \<and>
                 map_of (p @ new_rows half p r) (cid c) = Some (half (y0 + y1))"
  using lookup_new_rows [OF d ok] children_in_tree [OF c] c ideal_height_internal [OF c(2), of half p]
  by (auto simp del: map_of_append)

lemma terminals_distinct: "wf_tree t \<Longrightarrow> distinct (map cid (get_terminals t))"
  by (simp add: wf_tree_def get_terminals_def distinct_map_filter)

lemma terminals_mem: "x \<in> set (get_terminals t) \<longleftrightarrow> x \<in> set (find_clades (root_clade t)) \<and> clades x = []"
  by (auto simp: get_terminals_def is_terminal_def)

lemma base_ok_terminals:
  assumes wf: "wf_tree t" and keys: "fst ` set p = cid ` set (get_terminals t)"
  shows "base_ok p (find_clades (root_clade t))"
proof -
  have inj: "inj_on cid (set (find_clades (root_clade t)))"
    using wf by (simp add: wf_tree_def distinct_map)
  show ?thesis
    unfolding base_ok_def keys
  proof (intro ballI conjI impI)
    fix x assume "x \<in> set (find_clades (root_clade t))" "clades x = []"
    then show "cid x \<in> cid ` set (get_terminals t)" by (simp add: terminals_mem)
  next
    fix x assume x: "x \<in> set (find_clades (root_clade t))" "clades x \<noteq> []"
    show "cid x \<notin> cid ` set (get_terminals t)"
    proof
      assume "cid x \<in> cid ` set (get_terminals t)"
      then obtain y where y: "y \<in> set (get_terminals t)" "cid x = cid y" by auto
      with inj x(1) have "x = y" by (auto simp: terminals_mem dest: inj_onD)
      with x(2) y(1) show False by (simp add: terminals_mem)
    qed
  qed
qed

lemma map_snd_enumerate: "map (\<lambda>x. f (snd x)) (enumerate n xs) = map f xs"
  by (induction xs arbitrary: n) simp_all

lemma heights0_keys: "map fst (heights0 t) = map cid (rev (get_terminals t))"
  by (simp add: heights0_def comp_def case_prod_unfold map_snd_enumerate [of cid])

lemma positions0_keys: "map fst (positions0 taxa) = map cid taxa"
  by (simp add: positions0_def comp_def case_prod_unfold map_snd_enumerate [of cid])

lemma heights0_lookup:
  assumes wf: "wf_tree t" and j: "j < length (get_terminals t)"
  shows "map_of (heights0 t) (cid (get_terminals t ! j)) = Some (real j + 1)"
proof -
  let ?ts = "get_terminals t"
  let ?n = "length ?ts"
  have d: "distinct (map fst (heights0 t))"
    using terminals_distinct [OF wf] by (simp add: heights0_keys rev_map [symmetric])
  have k: "?n - 1 - j < length (enumerate 0 (rev ?ts))" using j by simp
  have "heights0 t ! (?n - 1 - j) = (cid (?ts ! j), real ?n - real (?n - 1 - j))"
    using j by (simp add: heights0_def count_terminals_def nth_enumerate_eq rev_nth)
  moreover have "?n - 1 - j < length (heights0 t)" using j by (simp add: heights0_def)
  ultimately have "(cid (?ts ! j), real ?n - real (?n - 1 - j)) \<in> set (heights0 t)"
    by (metis nth_mem)
  from map_of_is_SomeI [OF d this] j show ?thesis by (simp add: of_nat_diff)
qed

lemma positions0_lookup:
  assumes d: "distinct (map cid taxa)" and j: "j < length taxa"
  shows "map_of (positions0 taxa) (cid (taxa ! j)) = Some (2 * int j)"
proof -
  have "positions0 taxa ! j = (cid (taxa ! j), 2 * int j)"
    using j by (simp add: positions0_def nth_enumerate_eq)
  moreover have "j < length (positions0 taxa)" using j by (simp add: positions0_def)
  ultimately have "(cid (taxa ! j), 2 * int j) \<in> set (positions0 taxa)"
    by (metis nth_mem)
  from map_of_is_SomeI [OF _ this] d show ?thesis by (simp add: positions0_keys)
qed

lemma get_y_positions_eq:
  assumes wf: "wf_tree t"
  shows "get_y_positions t = Inr (heights0 t @ new_rows (\<lambda>s. s / 2) (heights0 t) (root_clade t))"
proof -
  have d: "distinct (map fst (heights0 t))"
    using terminals_distinct [OF wf] by (simp add: heights0_keys rev_map [symmetric])
  have h: "dict_of (heights0 t) = heights0 t" by (rule dict_of_distinct [OF d])
  have "fst ` set (heights0 t) = cid ` set (get_terminals t)"
    using heights0_keys [of t] by (metis list.set_map set_rev)
  then have ok: "base_ok (heights0 t) (find_clades (root_clade t))"
    by (rule base_ok_terminals [OF wf])
  show ?thesis
  proof (cases "clades (root_clade t) = []")
    case True
    then show ?thesis
      using h by (simp add: get_y_positions_def heights0_def [symmetric] new_rows_terminal)
  next
    case False
    then show ?thesis
      using h calc_row_by_char(1) [OF _ ok False, of "\<lambda>s. s / 2"] wf
      by (simp add: get_y_positions_def heights0_def [symmetric] calc_row_y_def wf_tree_def)
  qed
qed

lemma get_row_positions_eq:
  assumes wf: "wf_tree t" and ne: "clades (root_clade t) \<noteq> []"
  shows "get_row_positions (get_terminals t) t =
         Inr (positions0 (get_terminals t) @ new_rows (\<lambda>s. s div 2) (positions0 (get_terminals t)) (root_clade t))"
proof -
  let ?p = "positions0 (get_terminals t)"
  have d: "distinct (map fst ?p)"
    using terminals_distinct [OF wf] by (simp add: positions0_keys)
  have h: "dict_of ?p = ?p" by (rule dict_of_distinct [OF d])
  have "fst ` set ?p = cid ` set (get_terminals t)"
    using positions0_keys [of "get_terminals t"] by (metis list.set_map)
  then have ok: "base_ok ?p (find_clades (root_clade t))"
    by (rule base_ok_terminals [OF wf])
  show ?thesis
    using h calc_row_by_char(1) [OF _ ok ne, of "\<lambda>s. s div 2"] wf
    by (simp add: get_row_positions_def positions0_def [symmetric] calc_row_def wf_tree_def)
qed

lemma paths_nonempty:
  "pth \<in> set (paths c) \<Longrightarrow> pth \<noteq> []"
  "pth \<in> set (paths_list cs) \<Longrightarrow> pth \<noteq> []"
  by (induction c and cs rule: paths_paths_list.induct) auto

lemma paths_cover:
  "map last (paths c) = find_clades c"
  "map last (paths_list cs) = find_clades_list cs"
proof (induction c and cs rule: paths_paths_list.induct)
  case (1 a cs)
  have "map (last \<circ> (#) (Clade a cs)) (paths_list cs) = map last (paths_list cs)"
    by (rule map_cong [OF refl]) (auto dest: paths_nonempty(2))
  with 1 show ?case by simp
qed simp_all






lemma py_max_Max: "xs \<noteq> [] \<Longrightarrow> py_max xs = Inr (Max (set xs))"
proof (cases xs)
  case (Cons a list)
  then show ?thesis using Max.set_eq_fold [of a list] by (simp add: py_max_def)
qed simp


text \<open>The unfolding rules that evaluate the example trees.\<close>

lemmas ex_defs = mk_info_def ex_single_def ex_pair_def ex_ab_c_def wf_tree_def get_terminals_def
  is_terminal_def count_terminals_def

lemma y_terminal:
  assumes wf: "wf_tree t" and j: "j < length (get_terminals t)"
  shows "map_of (heights0 t @ q) (cid (get_terminals t ! j)) = Some (real j + 1)"
proof -
  have "cid (get_terminals t ! j) \<in> set (map fst (heights0 t))"
    using j unfolding heights0_keys by simp
  then have "cid (get_terminals t ! j) \<in> fst ` set (heights0 t)" by simp
  from map_of_append_dom [OF this] heights0_lookup [OF wf j] show ?thesis by simp
qed

lemma row_terminal:
  assumes wf: "wf_tree t" and j: "j < length (get_terminals t)"
  shows "map_of (positions0 (get_terminals t) @ q) (cid (get_terminals t ! j)) = Some (2 * int j)"
proof -
  have "cid (get_terminals t ! j) \<in> set (map fst (positions0 (get_terminals t)))"
    using j unfolding positions0_keys by simp
  then have "cid (get_terminals t ! j) \<in> fst ` set (positions0 (get_terminals t))" by simp
  from map_of_append_dom [OF this] positions0_lookup [OF terminals_distinct [OF wf] j]
  show ?thesis by simp
qed

lemma tree_keys_distinct: "wf_tree t \<Longrightarrow> distinct (map cid (find_clades (root_clade t)))"
  by (simp add: wf_tree_def)

lemma heights0_base_ok:
  assumes wf: "wf_tree t"
  shows "base_ok (heights0 t) (find_clades (root_clade t))"
proof -
  have "fst ` set (heights0 t) = cid ` set (get_terminals t)"
    using heights0_keys [of t] by (metis list.set_map set_rev)
  then show ?thesis by (rule base_ok_terminals [OF wf])
qed

lemma positions0_base_ok:
  assumes wf: "wf_tree t"
  shows "base_ok (positions0 (get_terminals t)) (find_clades (root_clade t))"
proof -
  have "fst ` set (positions0 (get_terminals t)) = cid ` set (get_terminals t)"
    using positions0_keys [of "get_terminals t"] by (metis list.set_map)
  then show ?thesis by (rule base_ok_terminals [OF wf])
qed

lemma wf_ex_ab_c: "wf_tree ex_ab_c"
  by (simp add: ex_defs)

lemma wf_ex_pair: "wf_tree ex_pair"
  by (simp add: ex_defs)

lemma fudge_margin_eq: "0 < n \<Longrightarrow> fudge_margin n = Inr (int (ceillog2 n))"
proof -
  assume n: "0 < n"
  then have "0 \<le> log 2 (real n)" by simp
  then have "0 \<le> \<lceil>log 2 (real n)\<rceil>" by linarith
  with n show ?thesis by (simp add: fudge_margin_def ceillog2_def)
qed



lemma ceillog2_4: "ceillog2 4 = 2"
  using ceillog2_2_power [of 2] by simp

lemma ceillog2_Suc4: "ceillog2 (Suc (Suc (Suc (Suc 0)))) = 2"
  using ceillog2_4 by (simp add: numeral_eq_Suc)


section \<open>The drawing of the balanced tree\<close>

lemma bal_terminals:
  "get_terminals ex_balanced =
     [Clade (mk_info 2 (Some ''A'') (Some 1)) [], Clade (mk_info 3 (Some ''B'') (Some 1)) [],
      Clade (mk_info 5 (Some ''C'') (Some 1)) [], Clade (mk_info 6 (Some ''D'') (Some 1)) []]"
  by (simp add: ex_balanced_def get_terminals_def is_terminal_def)

lemma bal_cols: "get_col_positions (get_terminals ex_balanced) 78 ex_balanced =
   Inr [(0, 1), (1, 39), (2, 77), (3, 77), (4, 39), (5, 77), (6, 77)]"
  by (simp add: ex_defs ex_balanced_def get_col_positions_def dict_of_def depths_def depth_of_def py_max_def
      dict_values_def fudge_margin_eq ceillog2_Suc4 py_int_def Let_def)

lemma bal_rows: "get_row_positions (get_terminals ex_balanced) ex_balanced =
   Inr [(2, 0), (3, 2), (5, 4), (6, 6), (1, 1), (4, 5), (0, 3)]"
  by (simp add: ex_defs ex_balanced_def get_row_positions_def dict_of_def calc_row_def)

lemma bal_label_width:
  "py_max (map (\<lambda>taxon. int (length (str_clade taxon))) (get_terminals ex_balanced)) = Inr 1"
  by (simp add: bal_terminals py_max_def str_clade_def mk_info_def)

lemma bal_matrix:
  "draw_clade_ascii [(0, 1), (1, 39), (2, 77), (3, 77), (4, 39), (5, 77), (6, 77)]
      [(2, 0), (3, 2), (5, 4), (6, 6), (1, 1), (4, 5), (0, 3)] (root_clade ex_balanced) 0
      (replicate 7 (replicate 78 CHR '' '')) =
   Inr [''                                        _____________________________________ '',
      ''  _____________________________________|                                      '',
      '' |                                     |_____________________________________ '',
      ''_|                                                                            '',
      '' |                                      _____________________________________ '',
      '' |_____________________________________|                                      '',
      ''                                       |_____________________________________ '']"
  by code_simp

lemma bal_write:
  "write_rows (get_terminals ex_balanced) (enumerate 0
     [''                                        _____________________________________ '',
      ''  _____________________________________|                                      '',
      '' |                                     |_____________________________________ '',
      ''_|                                                                            '',
      '' |                                      _____________________________________ '',
      '' |_____________________________________|                                      '',
      ''                                       |_____________________________________ '']) =
   Inr [''                                        _____________________________________ A\<newline>'',
      ''  _____________________________________|\<newline>'',
      '' |                                     |_____________________________________ B\<newline>'',
      ''_|\<newline>'',
      '' |                                      _____________________________________ C\<newline>'',
      '' |_____________________________________|\<newline>'',
      ''                                       |_____________________________________ D\<newline>'']"
  by code_simp

section \<open>The claims about the layout\<close>

text \<open>
  Claim C1, as amended. For every well-formed tree the vector layout
  \<open>get_y_positions\<close> succeeds, places the terminals in traversal order as a strictly
  increasing sequence, and gives every internal clade exactly
  \<open>(first_child_height + last_child_height) / 2\<close>, the midpoint of its first and last
  child only. When the root has children, the ASCII layout \<open>get_row_positions\<close>
  succeeds, places the terminals in traversal order as a strictly increasing sequence, and
  gives every internal clade \<open>(first_child_row + last_child_row) div 2\<close>: the midpoint
  of its first and last child rounded down to an integer row.
\<close>

theorem height_layout_midpoints:
  assumes wf: "wf_tree t"
  shows "(\<exists>h. get_y_positions t = Inr h \<and>
            sorted_wrt (<) (map (\<lambda>tip. the (map_of h (cid tip))) (get_terminals t)) \<and>
            (\<forall>c \<in> set (find_clades (root_clade t)). clades c \<noteq> [] \<longrightarrow>
               (\<exists>y0 y1. map_of h (cid (hd (clades c))) = Some y0 \<and>
                        map_of h (cid (last (clades c))) = Some y1 \<and>
                        map_of h (cid c) = Some ((y0 + y1) / 2)))) \<and>
         (clades (root_clade t) \<noteq> [] \<longrightarrow>
          (\<exists>p. get_row_positions (get_terminals t) t = Inr p \<and>
            sorted_wrt (<) (map (\<lambda>tip. the (map_of p (cid tip))) (get_terminals t)) \<and>
            (\<forall>c \<in> set (find_clades (root_clade t)). clades c \<noteq> [] \<longrightarrow>
               (\<exists>y0 y1. map_of p (cid (hd (clades c))) = Some y0 \<and>
                        map_of p (cid (last (clades c))) = Some y1 \<and>
                        map_of p (cid c) = Some ((y0 + y1) div 2)))))"
proof (intro conjI impI)
  let ?h = "heights0 t @ new_rows (\<lambda>s. s / 2) (heights0 t) (root_clade t)"
  have "sorted_wrt (<) (map (\<lambda>tip. the (map_of ?h (cid tip))) (get_terminals t))"
    using y_terminal [OF wf] by (simp add: sorted_wrt_iff_nth_less del: map_of_append)
  moreover have "\<forall>c \<in> set (find_clades (root_clade t)). clades c \<noteq> [] \<longrightarrow>
               (\<exists>y0 y1. map_of ?h (cid (hd (clades c))) = Some y0 \<and>
                        map_of ?h (cid (last (clades c))) = Some y1 \<and>
                        map_of ?h (cid c) = Some ((y0 + y1) / 2))"
    using rows_midpoint [OF tree_keys_distinct [OF wf] heights0_base_ok [OF wf], of _ "\<lambda>s. s / 2"]
    by blast
  ultimately show "\<exists>h. get_y_positions t = Inr h \<and>
            sorted_wrt (<) (map (\<lambda>tip. the (map_of h (cid tip))) (get_terminals t)) \<and>
            (\<forall>c \<in> set (find_clades (root_clade t)). clades c \<noteq> [] \<longrightarrow>
               (\<exists>y0 y1. map_of h (cid (hd (clades c))) = Some y0 \<and>
                        map_of h (cid (last (clades c))) = Some y1 \<and>
                        map_of h (cid c) = Some ((y0 + y1) / 2)))"
    using get_y_positions_eq [OF wf] by blast
next
  assume ne: "clades (root_clade t) \<noteq> []"
  let ?p = "positions0 (get_terminals t) @ new_rows (\<lambda>s. s div 2) (positions0 (get_terminals t)) (root_clade t)"
  have "sorted_wrt (<) (map (\<lambda>tip. the (map_of ?p (cid tip))) (get_terminals t))"
    using row_terminal [OF wf] by (simp add: sorted_wrt_iff_nth_less del: map_of_append)
  moreover have "\<forall>c \<in> set (find_clades (root_clade t)). clades c \<noteq> [] \<longrightarrow>
               (\<exists>y0 y1. map_of ?p (cid (hd (clades c))) = Some y0 \<and>
                        map_of ?p (cid (last (clades c))) = Some y1 \<and>
                        map_of ?p (cid c) = Some ((y0 + y1) div 2))"
    using rows_midpoint [OF tree_keys_distinct [OF wf] positions0_base_ok [OF wf], of _ "\<lambda>s. s div 2"]
    by blast
  ultimately show "\<exists>p. get_row_positions (get_terminals t) t = Inr p \<and>
            sorted_wrt (<) (map (\<lambda>tip. the (map_of p (cid tip))) (get_terminals t)) \<and>
            (\<forall>c \<in> set (find_clades (root_clade t)). clades c \<noteq> [] \<longrightarrow>
               (\<exists>y0 y1. map_of p (cid (hd (clades c))) = Some y0 \<and>
                        map_of p (cid (last (clades c))) = Some y1 \<and>
                        map_of p (cid c) = Some ((y0 + y1) div 2)))"
    using get_row_positions_eq [OF wf ne] by blast
qed

text \<open>
  The theorem at the tree \<open>((A, B), C)\<close> and its root: the tree is well formed and the
  root is an internal clade.
\<close>

theorem height_layout_midpoints_witness:
  "wf_tree ex_ab_c \<and> root_clade ex_ab_c \<in> set (find_clades (root_clade ex_ab_c)) \<and>
   clades (root_clade ex_ab_c) \<noteq> [] \<and>
   (\<exists>h y0 y1. get_y_positions ex_ab_c = Inr h \<and>
        sorted_wrt (<) (map (\<lambda>tip. the (map_of h (cid tip))) (get_terminals ex_ab_c)) \<and>
        map_of h (cid (hd (clades (root_clade ex_ab_c)))) = Some y0 \<and>
        map_of h (cid (last (clades (root_clade ex_ab_c)))) = Some y1 \<and>
        map_of h (cid (root_clade ex_ab_c)) = Some ((y0 + y1) / 2)) \<and>
   (\<exists>p y0 y1. get_row_positions (get_terminals ex_ab_c) ex_ab_c = Inr p \<and>
        sorted_wrt (<) (map (\<lambda>tip. the (map_of p (cid tip))) (get_terminals ex_ab_c)) \<and>
        map_of p (cid (hd (clades (root_clade ex_ab_c)))) = Some y0 \<and>
        map_of p (cid (last (clades (root_clade ex_ab_c)))) = Some y1 \<and>
        map_of p (cid (root_clade ex_ab_c)) = Some ((y0 + y1) div 2))"
proof -
  let ?r = "root_clade ex_ab_c"
  have ne: "clades ?r \<noteq> []" by (simp add: ex_ab_c_def)
  have mem: "?r \<in> set (find_clades ?r)" by (rule find_clades_self)
  note inst = height_layout_midpoints [OF wf_ex_ab_c]
  from inst obtain h where h: "get_y_positions ex_ab_c = Inr h"
    "sorted_wrt (<) (map (\<lambda>tip. the (map_of h (cid tip))) (get_terminals ex_ab_c))"
    "\<forall>c \<in> set (find_clades ?r). clades c \<noteq> [] \<longrightarrow>
       (\<exists>y0 y1. map_of h (cid (hd (clades c))) = Some y0 \<and>
                map_of h (cid (last (clades c))) = Some y1 \<and>
                map_of h (cid c) = Some ((y0 + y1) / 2))"
    by blast
  from h(3) mem ne obtain y0 y1 where y: "map_of h (cid (hd (clades ?r))) = Some y0"
    "map_of h (cid (last (clades ?r))) = Some y1" "map_of h (cid ?r) = Some ((y0 + y1) / 2)"
    by blast
  from inst ne obtain p where p: "get_row_positions (get_terminals ex_ab_c) ex_ab_c = Inr p"
    "sorted_wrt (<) (map (\<lambda>tip. the (map_of p (cid tip))) (get_terminals ex_ab_c))"
    "\<forall>c \<in> set (find_clades ?r). clades c \<noteq> [] \<longrightarrow>
       (\<exists>y0 y1. map_of p (cid (hd (clades c))) = Some y0 \<and>
                map_of p (cid (last (clades c))) = Some y1 \<and>
                map_of p (cid c) = Some ((y0 + y1) div 2))"
    by blast
  from p(3) mem ne obtain r0 r1 where r: "map_of p (cid (hd (clades ?r))) = Some r0"
    "map_of p (cid (last (clades ?r))) = Some r1" "map_of p (cid ?r) = Some ((r0 + r1) div 2)"
    by blast
  from h(1,2) y p(1,2) r wf_ex_ab_c mem ne show ?thesis
    by (intro conjI exI [of _ h] exI [of _ y0] exI [of _ y1] exI [of _ p] exI [of _ r0] exI [of _ r1])
qed

text \<open>
  Claim C1 as stated fails in the ASCII layout. In \<open>((A, B), C)\<close> the children of the
  root sit on rows 1 and 4, whose midpoint is \<open>5 / 2\<close>; the root is placed on row 2.
\<close>

theorem ascii_midpoint_counterexample:
  "get_row_positions (get_terminals ex_ab_c) ex_ab_c = Inr [(2, 0), (3, 2), (4, 4), (1, 1), (0, 2)] \<and>
   map cid (clades (root_clade ex_ab_c)) = [1, 4] \<and>
   real_of_int 2 \<noteq> (real_of_int 1 + real_of_int 4) / 2"
  by (simp add: ex_defs get_row_positions_def dict_of_def calc_row_def)

text \<open>
  Claim C4, as amended. The terminal at index \<open>i\<close> of the traversal order receives
  \<open>count - (count - 1 - i)\<close> in the vector layout, that is \<open>i + 1\<close>: the enumeration
  whose index is subtracted from the count runs over the reversed terminals. In the ASCII
  layout (for a root with children) it receives \<open>2 * i\<close>. In both layouts the first
  terminal of the traversal order receives the lowest coordinate of any terminal; both
  renderers show the lowest coordinate topmost.
\<close>

theorem terminal_positions:
  assumes wf: "wf_tree t"
  shows "(\<exists>h. get_y_positions t = Inr h \<and>
            (\<forall>i < count_terminals t.
               map_of h (cid (get_terminals t ! i)) =
                 Some (real (count_terminals t) - real (count_terminals t - 1 - i)) \<and>
               the (map_of h (cid (get_terminals t ! 0))) \<le> the (map_of h (cid (get_terminals t ! i))))) \<and>
         (clades (root_clade t) \<noteq> [] \<longrightarrow>
          (\<exists>p. get_row_positions (get_terminals t) t = Inr p \<and>
            (\<forall>i < count_terminals t.
               map_of p (cid (get_terminals t ! i)) = Some (2 * int i) \<and>
               the (map_of p (cid (get_terminals t ! 0))) \<le> the (map_of p (cid (get_terminals t ! i))))))"
proof (intro conjI impI)
  let ?n = "count_terminals t"
  let ?h = "heights0 t @ new_rows (\<lambda>s. s / 2) (heights0 t) (root_clade t)"
  have "map_of ?h (cid (get_terminals t ! i)) = Some (real ?n - real (?n - 1 - i)) \<and>
        the (map_of ?h (cid (get_terminals t ! 0))) \<le> the (map_of ?h (cid (get_terminals t ! i)))"
    if "i < ?n" for i
  proof -
    from that have i: "i < length (get_terminals t)" and z: "0 < length (get_terminals t)"
      by (auto simp: count_terminals_def)
    from that have "real ?n - real (?n - 1 - i) = real i + 1" by (simp add: of_nat_diff)
    with y_terminal [OF wf i] y_terminal [OF wf z] show ?thesis
      by (simp del: map_of_append)
  qed
  then show "\<exists>h. get_y_positions t = Inr h \<and>
            (\<forall>i < count_terminals t.
               map_of h (cid (get_terminals t ! i)) =
                 Some (real (count_terminals t) - real (count_terminals t - 1 - i)) \<and>
               the (map_of h (cid (get_terminals t ! 0))) \<le> the (map_of h (cid (get_terminals t ! i))))"
    using get_y_positions_eq [OF wf] by blast
next
  assume ne: "clades (root_clade t) \<noteq> []"
  let ?n = "count_terminals t"
  let ?p = "positions0 (get_terminals t) @ new_rows (\<lambda>s. s div 2) (positions0 (get_terminals t)) (root_clade t)"
  have "map_of ?p (cid (get_terminals t ! i)) = Some (2 * int i) \<and>
        the (map_of ?p (cid (get_terminals t ! 0))) \<le> the (map_of ?p (cid (get_terminals t ! i)))"
    if "i < ?n" for i
  proof -
    from that have i: "i < length (get_terminals t)" and z: "0 < length (get_terminals t)"
      by (auto simp: count_terminals_def)
    with row_terminal [OF wf i] row_terminal [OF wf z] show ?thesis
      by (simp del: map_of_append)
  qed
  then show "\<exists>p. get_row_positions (get_terminals t) t = Inr p \<and>
            (\<forall>i < count_terminals t.
               map_of p (cid (get_terminals t ! i)) = Some (2 * int i) \<and>
               the (map_of p (cid (get_terminals t ! 0))) \<le> the (map_of p (cid (get_terminals t ! i))))"
    using get_row_positions_eq [OF wf ne] by blast
qed

text \<open>The theorem at the tree \<open>(A, B)\<close> and its second terminal.\<close>

theorem terminal_positions_witness:
  "wf_tree ex_pair \<and> clades (root_clade ex_pair) \<noteq> [] \<and> (1::nat) < count_terminals ex_pair \<and>
   (\<exists>h. get_y_positions ex_pair = Inr h \<and>
        map_of h (cid (get_terminals ex_pair ! 1)) =
          Some (real (count_terminals ex_pair) - real (count_terminals ex_pair - 1 - 1)) \<and>
        the (map_of h (cid (get_terminals ex_pair ! 0))) \<le> the (map_of h (cid (get_terminals ex_pair ! 1)))) \<and>
   (\<exists>p. get_row_positions (get_terminals ex_pair) ex_pair = Inr p \<and>
        map_of p (cid (get_terminals ex_pair ! 1)) = Some (2 * int 1) \<and>
        the (map_of p (cid (get_terminals ex_pair ! 0))) \<le> the (map_of p (cid (get_terminals ex_pair ! 1))))"
proof -
  have ne: "clades (root_clade ex_pair) \<noteq> []" by (simp add: ex_pair_def)
  have n: "(1::nat) < count_terminals ex_pair" by (simp add: ex_defs)
  from terminal_positions [OF wf_ex_pair] ne n wf_ex_pair show ?thesis by blast
qed

text \<open>
  Claim C4 as stated fails at the tree \<open>(A, B)\<close>: the first terminal of the traversal
  order receives 1 in the vector layout, not \<open>count - index = 2 - 0\<close>, and 0 in the
  ASCII layout; in both the second terminal lies higher.
\<close>

theorem first_terminal_counterexample:
  "map cid (get_terminals ex_pair) = [1, 2] \<and> count_terminals ex_pair = 2 \<and>
   get_y_positions ex_pair = Inr [(2, 2), (1, 1), (0, 3 / 2)] \<and>
   (1::real) \<noteq> real (count_terminals ex_pair) - real (0::nat) \<and> (1::real) < 2 \<and>
   get_row_positions (get_terminals ex_pair) ex_pair = Inr [(1, 0), (2, 2), (0, 1)] \<and>
   (0::int) < 2"
  by (simp add: ex_defs get_y_positions_def get_row_positions_def dict_of_def calc_row_y_def calc_row_def)



text \<open>
  Claim C3 fails on the code. For the tree of one node the unit depths are all zero too,
  and \<open>get_col_positions\<close> divides by their maximum: \<open>ZeroDivisionError\<close>, which
  \<open>draw_ascii\<close> propagates. \<open>get_x_positions\<close> succeeds on the same tree.
\<close>

theorem single_node_column_failure:
  "get_col_positions (get_terminals ex_single) drawing_width ex_single = Inl ZeroDivisionError \<and>
   draw_ascii ex_single column_width = Inl ZeroDivisionError \<and>
   get_x_positions ex_single = Inr [(0, 0)]"
  by (simp add: ex_defs get_col_positions_def get_x_positions_def dict_of_def depths_def depth_of_def
      py_max_def dict_values_def fudge_margin_def draw_ascii_def str_clade_def)


section \<open>The claim about \<open>draw_ascii\<close>\<close>

text \<open>
  Claim C5. \<open>draw_ascii\<close> of the balanced tree \<open>((A, B), (C, D))\<close> with unit
  branch lengths, at the default width of 80 columns, writes a grid of \<open>2 * 4 - 1 = 7\<close>
  rows followed by one empty line; the labels \<open>A\<close>, \<open>B\<close>, \<open>C\<close>, \<open>D\<close> end
  the rows 0, 2, 4 and 6, in traversal order, and the odd rows carry no label.
\<close>

theorem draw_ascii_balanced:
  "draw_ascii ex_balanced 80 =
   Inr [''                                        _____________________________________ A\<newline>'',
      ''  _____________________________________|\<newline>'',
      '' |                                     |_____________________________________ B\<newline>'',
      ''_|\<newline>'',
      '' |                                      _____________________________________ C\<newline>'',
      '' |_____________________________________|\<newline>'',
      ''                                       |_____________________________________ D\<newline>'',
      ''\<newline>'']"
proof -
  have len: "length (get_terminals ex_balanced) = 4" by (simp add: bal_terminals)
  show ?thesis
    unfolding draw_ascii_def Let_def bal_label_width len
    by (simp add: bal_cols bal_rows bal_matrix bal_write del: One_nat_def enumerate_simps)
qed

section \<open>Lemmas about \<open>draw\<close>\<close>

lemma select_empty_dict:
  "select_format_branch_label e (args\<lparr>branch_labels := BLDict []\<rparr>) =
   select_format_branch_label e (args\<lparr>branch_labels := BLNone\<rparr>)"
  by (simp add: select_format_branch_label_def truthy_branch_labels_def)

lemma setup_axes_branch_labels: "setup_axes (args\<lparr>branch_labels := b\<rparr>) = setup_axes args"
  by (rule ext) (simp add: setup_axes_def cong: if_cong option.case_cong)

lemma select_get_label_color_branch_labels:
  "select_get_label_color (args\<lparr>branch_labels := b\<rparr>) = select_get_label_color args"
  by (simp add: select_get_label_color_def)

lemma draw_figure_empty_dict:
  "draw_figure e t (args\<lparr>branch_labels := BLDict []\<rparr>) = draw_figure e t (args\<lparr>branch_labels := BLNone\<rparr>)"
  unfolding draw_figure_def
  by (simp add: select_empty_dict setup_axes_branch_labels select_get_label_color_branch_labels
      cong: if_cong)

lemma extends_refl: "extends p p"
  by (simp add: extends_def)

lemma extends_trans: "extends p q \<Longrightarrow> extends q r \<Longrightarrow> extends p r"
  by (auto simp: extends_def)

lemma extends_issue: "extends p (issue c p)"
  by (simp add: extends_def issue_def)

lemma extends_lines: "extends p (draw_clade_lines u orientation a b c d e col lw ls p)"
  by (simp add: extends_def draw_clade_lines_def issue_def)

lemma extends_drawn: "extends p p' \<Longrightarrow> drawn p \<Longrightarrow> drawn p'"
  by (auto simp: extends_def drawn_def)

lemma drawn_issue: "is_drawing_call c \<Longrightarrow> drawn (issue c p)"
  by (simp add: drawn_def issue_def)

lemma hline_first:
  "\<exists>l. horizontal_linecollections (draw_clade_lines True ''horizontal'' a b c d e col lw ls p)
         = horizontal_linecollections p @ [l] \<and> lc_color l = col"
  by (simp add: draw_clade_lines_def)

lemma vline_first:
  "\<exists>l. vertical_linecollections (draw_clade_lines True ''vertical'' a b c d e col lw ls p)
         = vertical_linecollections p @ [l] \<and> lc_color l = col"
  by (simp add: draw_clade_lines_def)

lemma extends_hline:
  assumes "\<exists>l. horizontal_linecollections q = horizontal_linecollections p @ [l] \<and> lc_color l = col"
    and "extends q r"
  shows "\<exists>l rest. horizontal_linecollections r = horizontal_linecollections p @ l # rest \<and> lc_color l = col"
  using assms by (auto simp: extends_def)

lemma extends_vline:
  assumes "\<exists>l. vertical_linecollections q = vertical_linecollections p @ [l] \<and> lc_color l = col"
    and "extends q r"
  shows "\<exists>l rest. vertical_linecollections r = vertical_linecollections p @ l # rest \<and> lc_color l = col"
  using assms by (auto simp: extends_def)

lemma and_then_Inr: "and_then r f = Inr y \<longleftrightarrow> (\<exists>x. r = Inr x \<and> f x = Inr y)"
  by (cases r) (simp_all add: and_then_def)

lemma raising_Inr: "raising p r = Inr x \<longleftrightarrow> r = Inr x"
  by (cases r) (simp_all add: raising_def)

lemma draw_clade_vertical_extends:
  assumes "draw_clade_vertical cx c x_start x_here y_here xmax col lw p = Inr p'"
  shows "extends p p' \<and>
         (\<exists>l rest. horizontal_linecollections p' = horizontal_linecollections p @ l # rest \<and> lc_color l = col)"
proof -
  define p1 where "p1 = draw_clade_lines True ''horizontal'' y_here x_start x_here 0 0 col lw ''solid'' p"
  have e1: "extends p p1" unfolding p1_def by (rule extends_lines)
  have h1: "\<exists>l. horizontal_linecollections p1 = horizontal_linecollections p @ [l] \<and> lc_color l = col"
    unfolding p1_def by (rule hline_first)
  have "\<exists>p4. extends p1 p4 \<and> (p' = p4 \<or> (\<exists>y_bot y_top. p' = draw_clade_lines True ''vertical'' 0 0 x_here y_bot y_top col lw ''solid'' p4))"
    using assms unfolding draw_clade_vertical_def Let_def p1_def [symmetric]
    by (auto simp: and_then_Inr raising_Inr split: if_splits option.splits
        intro: extends_refl extends_issue extends_lines extends_trans [OF extends_lines extends_issue]
          extends_trans [OF extends_issue extends_issue]
          extends_trans [OF extends_lines extends_trans [OF extends_issue extends_issue]])
  then obtain p4 where "extends p1 p4" "extends p4 p'"
    by (auto intro: extends_refl extends_lines)
  then have e: "extends p1 p'" by (rule extends_trans)
  from extends_trans [OF e1 e] extends_hline [OF h1 e] show ?thesis by blast
qed

lemma draw_clade_horizontal_extends:
  assumes "draw_clade_horizontal cx c x_start x_here y_here xmax col lw p = Inr p'"
  shows "extends p p' \<and>
         (\<exists>l rest. vertical_linecollections p' = vertical_linecollections p @ l # rest \<and> lc_color l = col)"
proof -
  define p1 where "p1 = draw_clade_lines True ''vertical'' 0 0 y_here x_start x_here col lw ''solid'' p"
  have e1: "extends p p1" unfolding p1_def by (rule extends_lines)
  have h1: "\<exists>l. vertical_linecollections p1 = vertical_linecollections p @ [l] \<and> lc_color l = col"
    unfolding p1_def by (rule vline_first)
  have "\<exists>p4. extends p1 p4 \<and> (p' = p4 \<or> (\<exists>y_bot y_top. p' = draw_clade_lines True ''horizontal'' x_here y_bot y_top 0 0 col lw ''solid'' p4))"
    using assms unfolding draw_clade_horizontal_def Let_def p1_def [symmetric]
    by (auto simp: and_then_Inr raising_Inr split: if_splits option.splits
        intro: extends_refl extends_issue extends_lines extends_trans [OF extends_lines extends_issue]
          extends_trans [OF extends_issue extends_issue]
          extends_trans [OF extends_lines extends_trans [OF extends_issue extends_issue]])
  then obtain p4 where "extends p1 p4" "extends p4 p'"
    by (auto intro: extends_refl extends_lines)
  then have e: "extends p1 p'" by (rule extends_trans)
  from extends_trans [OF e1 e] extends_vline [OF h1 e] show ?thesis by blast
qed


lemma draw_clade_here_extends:
  assumes "draw_clade_here cx c x_start col lw p = Inr (p', x_here)"
  shows "extends p p'"
    and "cx_orient_tree cx = ''vertical'' \<Longrightarrow>
         \<exists>l rest. horizontal_linecollections p' = horizontal_linecollections p @ l # rest \<and>
                  lc_color l = own_color c col"
    and "cx_orient_tree cx = ''horizontal'' \<Longrightarrow>
         \<exists>l rest. vertical_linecollections p' = vertical_linecollections p @ l # rest \<and>
                  lc_color l = own_color c col"
  using assms unfolding draw_clade_here_def
  by (auto simp: and_then_Inr raising_Inr split: if_splits
      dest: draw_clade_vertical_extends draw_clade_horizontal_extends intro: extends_refl)

lemma draw_clade_extends:
  "draw_clade cx c x_start col lw p = Inr p' \<Longrightarrow> extends p p'"
  "draw_descendents cx cs x_start col lw p = Inr p' \<Longrightarrow> extends p p'"
proof (induction cx c x_start col lw p and cx cs x_start col lw p arbitrary: p' and p'
    rule: draw_clade_draw_descendents.induct)
  case (1 cx a cs x_start color' lw p)
  from 1(2) obtain p1 x_here where h: "draw_clade_here cx (Clade a cs) x_start color' lw p = Inr (p1, x_here)"
    by (auto split: sum.splits)
  note e1 = draw_clade_here_extends(1) [OF h]
  show ?case
  proof (cases "cs \<noteq> [] \<and> cx_orient_tree cx \<in> set [''vertical'', ''horizontal'']")
    case True
    with 1(2) h have "draw_descendents cx cs x_here (own_color (Clade a cs) color')
        (own_lw cx (Clade a cs) lw) p1 = Inr p'" by simp
    from 1(1) [OF h refl True this] e1 show ?thesis by (rule extends_trans [rotated])
  next
    case False
    with 1(2) h have "p' = p1" by auto
    with e1 show ?thesis by simp
  qed
next
  case (2 cx x_start color' lw p)
  then show ?case by (simp add: extends_refl)
next
  case (3 cx child rest x_start color' lw p)
  from 3(3) obtain p1 where h: "draw_clade cx child x_start color' lw p = Inr p1"
    and r: "draw_descendents cx rest x_start color' lw p1 = Inr p'"
    by (auto split: sum.splits)
  from 3(1) [OF h] 3(2) [OF h r] show ?case by (rule extends_trans)
qed

lemma draw_clade_first_line:
  assumes "draw_clade cx c x_start col lw p = Inr p'"
  shows "cx_orient_tree cx = ''vertical'' \<Longrightarrow>
         \<exists>l rest. horizontal_linecollections p' = horizontal_linecollections p @ l # rest \<and>
                  lc_color l = own_color c col"
    and "cx_orient_tree cx = ''horizontal'' \<Longrightarrow>
         \<exists>l rest. vertical_linecollections p' = vertical_linecollections p @ l # rest \<and>
                  lc_color l = own_color c col"
proof -
  obtain a cs where c: "c = Clade a cs" by (cases c)
  from assms c obtain p1 x_here where h: "draw_clade_here cx c x_start col lw p = Inr (p1, x_here)"
    by (auto split: sum.splits)
  have e: "extends p1 p'"
  proof (cases "cs \<noteq> [] \<and> cx_orient_tree cx \<in> set [''vertical'', ''horizontal'']")
    case True
    with assms h c have "draw_descendents cx cs x_here (own_color c col) (own_lw cx c lw) p1 = Inr p'"
      by simp
    then show ?thesis by (rule draw_clade_extends(2))
  next
    case False
    with assms h c have "p' = p1" by auto
    then show ?thesis by (simp add: extends_refl)
  qed
  {
    assume "cx_orient_tree cx = ''vertical''"
    from draw_clade_here_extends(2) [OF h this] e
    show "\<exists>l rest. horizontal_linecollections p' = horizontal_linecollections p @ l # rest \<and>
                  lc_color l = own_color c col"
      by (auto simp: extends_def)
  }
  {
    assume "cx_orient_tree cx = ''horizontal''"
    from draw_clade_here_extends(3) [OF h this] e
    show "\<exists>l rest. vertical_linecollections p' = vertical_linecollections p @ l # rest \<and>
                  lc_color l = own_color c col"
      by (auto simp: extends_def)
  }
qed

lemma extends_issue_step: "extends p q \<Longrightarrow> extends p (issue c q)"
  by (auto simp: extends_def issue_def)

lemma drawn_issue_iff: "drawn (issue c q) \<longleftrightarrow> is_drawing_call c \<or> drawn q"
  by (auto simp: drawn_def issue_def)

lemma polar_branch_extends:
  "extends p (polar_branch cx c col lw x_start y_start x_here y_here xmax p) \<and>
   drawn (polar_branch cx c col lw x_start y_start x_here y_here xmax p)"
  by (simp add: polar_branch_def Let_def drawn_issue_iff is_drawing_call_def extends_issue_step extends_refl)

lemma polar_label_extends: "extends p (polar_label cx c x_here y_here xmax p)"
  by (simp add: polar_label_def Let_def extends_issue_step extends_refl split: prod.splits)

lemma polar_arc_extends: "polar_arc cx c col lw x_here yang p = Inr (p', locs) \<Longrightarrow> extends p p'"
  unfolding polar_arc_def Let_def
  by (auto simp: and_then_Inr raising_Inr intro: extends_issue)

lemma draw_clade_polar_here_extends:
  assumes "draw_clade_polar_here cx c col lw x_start y_start p = Inr (p', x_here, locs, rad)"
  shows "extends p p' \<and> drawn p'"
proof -
  from assms obtain y_here xmax yang where
    "p' = polar_label cx c x_here y_here xmax (polar_branch cx c col lw x_start y_start x_here y_here xmax p) \<or>
     polar_arc cx c col lw x_here yang
       (polar_label cx c x_here y_here xmax (polar_branch cx c col lw x_start y_start x_here y_here xmax p))
       = Inr (p', locs)"
    unfolding draw_clade_polar_here_def Let_def
    by (auto simp: and_then_Inr raising_Inr split: if_splits)
  then have "extends (polar_branch cx c col lw x_start y_start x_here y_here xmax p) p'"
    using polar_label_extends polar_arc_extends extends_trans by blast
  with polar_branch_extends [of p cx c col lw x_start y_start x_here y_here xmax]
  show ?thesis using extends_trans extends_drawn by blast
qed

lemma draw_clade_polar_extends:
  "draw_clade_polar cx c col lw x_start y_start p = Inr p' \<Longrightarrow> extends p p' \<and> drawn p'"
  "draw_children_polar cx cs locs n rad col lw x_here p = Inr p' \<Longrightarrow> extends p p'"
proof (induction cx c col lw x_start y_start p and cx cs locs n rad col lw x_here p arbitrary: p' and p'
    rule: draw_clade_polar_draw_children_polar.induct)
  case (1 cx a cs color' lw x_start y_start p)
  from 1(2) obtain p1 x_here locs rad
    where h: "draw_clade_polar_here cx (Clade a cs) color' lw x_start y_start p = Inr (p1, x_here, locs, rad)"
    by (auto split: sum.splits)
  note e1 = draw_clade_polar_here_extends [OF h]
  show ?case
  proof (cases "cs = []")
    case True
    with 1(2) h have "p' = p1" by simp
    with e1 show ?thesis by simp
  next
    case False
    with 1(2) h have "draw_children_polar cx cs locs 0 rad color' lw x_here p1 = Inr p'" by simp
    from 1(1) [OF h refl refl refl False this] have "extends p1 p'" .
    with e1 show ?thesis by (auto intro: extends_trans extends_drawn)
  qed
next
  case (2 cx locs count rad color' lw x_here p)
  then show ?case by (simp add: extends_refl)
next
  case (3 cx child rest locs count rad color' lw x_here p)
  from 3(3) obtain y_start p1 where
    y: "(if in_terminals cx child
         then (case lookup (y_posns cx) child of Inl e \<Rightarrow> Inl (e, p) | Inr y \<Rightarrow> Inr (y * rad))
         else (if count < length locs then Inr (locs ! count) else Inl (IndexError, p))) = Inr y_start"
    and h: "draw_clade_polar cx child color' lw x_here y_start p = Inr p1"
    and r: "draw_children_polar cx rest locs (count + 1) rad color' lw x_here p1 = Inr p'"
    by (auto split: sum.splits)
  from 3(1) [OF y h] 3(2) [OF y h r] show ?case by (auto intro: extends_trans)
qed

lemma foldl_add_collection:
  "calls (foldl (\<lambda>q i. issue (AddCollection i) q) p ls) = calls p @ map AddCollection ls \<and>
   horizontal_linecollections (foldl (\<lambda>q i. issue (AddCollection i) q) p ls) = horizontal_linecollections p \<and>
   vertical_linecollections (foldl (\<lambda>q i. issue (AddCollection i) q) p ls) = vertical_linecollections p"
  by (induction ls arbitrary: p) (simp_all add: issue_def)

lemma add_collections_calls:
  "calls (add_collections p) =
     calls p @ map AddCollection (horizontal_linecollections p) @ map AddCollection (vertical_linecollections p)"
  by (simp add: add_collections_def Let_def foldl_add_collection)

lemma add_collections_extends: "extends p (add_collections p)"
  by (simp add: extends_def add_collections_def Let_def foldl_add_collection)

lemma add_collections_drawn:
  "horizontal_linecollections p \<noteq> [] \<or> vertical_linecollections p \<noteq> [] \<Longrightarrow> drawn (add_collections p)"
  by (cases "horizontal_linecollections p"; cases "vertical_linecollections p")
     (auto simp: drawn_def add_collections_calls is_drawing_call_def)

lemma draw_oriented_drawn:
  assumes "draw_oriented cx p = Inr p'"
    and "cx_orient_tree cx \<in> set [''horizontal'', ''vertical'', ''circular'']"
  shows "drawn p'"
proof (cases "cx_orient_tree cx \<in> set [''horizontal'', ''vertical'']")
  case True
  with assms(1) obtain p1 where
    h: "draw_clade cx (root_clade (cx_tree cx)) 0 ''k'' (rc_linewidth (cx_env cx)) p = Inr p1"
    and e: "extends (add_collections p1) p'"
    unfolding draw_oriented_def Let_def
    by (auto simp: and_then_Inr raising_Inr split: if_splits
        intro: extends_issue extends_trans [OF extends_issue extends_issue]
          extends_trans [OF extends_issue extends_trans [OF extends_issue extends_trans [OF extends_issue extends_issue]]])
  from True draw_clade_first_line [OF h]
  have "horizontal_linecollections p1 \<noteq> [] \<or> vertical_linecollections p1 \<noteq> []" by auto
  then have "drawn (add_collections p1)" by (rule add_collections_drawn)
  with e show ?thesis by (rule extends_drawn)
next
  case False
  with assms(2) have c: "cx_orient_tree cx = ''circular''" by auto
  with assms(1) obtain p1 where
    h: "draw_clade_polar cx (root_clade (cx_tree cx)) ''k'' (rc_linewidth (cx_env cx)) 0 0 p = Inr p1"
    and e: "extends p1 p'"
    unfolding draw_oriented_def Let_def
    by (auto simp: and_then_Inr raising_Inr split: if_splits intro: extends_issue)
  from draw_clade_polar_extends(1) [OF h] e show ?thesis by (auto intro: extends_drawn)
qed

lemma set_title_extends: "extends p (set_title t p)"
  by (auto simp: set_title_def split: option.splits intro: extends_refl extends_issue)

lemma draw_figure_drawn:
  assumes "draw_figure e t args = Inr p"
  shows "drawn p"
proof -
  from assms obtain cx p0 p1 where "draw_oriented cx p0 = Inr p1" "p = set_title t p1"
    "cx_orient_tree cx \<in> set [''horizontal'', ''vertical'', ''circular'']"
    unfolding draw_figure_def
    by (auto simp: and_then_Inr raising_Inr split: if_splits)
  then show ?thesis using draw_oriented_drawn set_title_extends extends_drawn by blast
qed

lemma pyplot_option_extends: "pyplot_option e key v p = Inr p' \<Longrightarrow> extends p p'"
  unfolding pyplot_option_def pyplot_invoke_def
  by (auto simp: and_then_Inr raising_Inr split: if_splits pyval.splits option.splits
      intro: extends_issue)

lemma process_kwargs_extends: "process_kwargs e kw p = Inr p' \<Longrightarrow> extends p p'"
proof (induction e kw p arbitrary: p' rule: process_kwargs.induct)
  case (1 e p)
  then show ?case by (simp add: extends_refl)
next
  case (2 e key v rest p)
  from 2(2) obtain p1 where h: "pyplot_option e key v p = Inr p1" and r: "process_kwargs e rest p1 = Inr p'"
    by (auto split: sum.splits)
  from pyplot_option_extends [OF h] 2(1) [OF h r] show ?case by (rule extends_trans)
qed

lemma process_kwargs_append:
  "process_kwargs e (pre @ rest) p =
     (case process_kwargs e pre p of Inl err \<Rightarrow> Inl err | Inr p' \<Rightarrow> process_kwargs e rest p')"
  by (induction e pre p rule: process_kwargs.induct) (auto split: sum.splits)

section \<open>\<open>draw\<close> on the examples\<close>

text \<open>The unfolding rules that evaluate \<open>draw_clade\<close> on an example.\<close>

lemmas clade_defs = draw_clade_here_def and_then_def raising_def lookup_def mk_info_def py_max_def
  dict_values_def draw_clade_vertical_def draw_clade_horizontal_def Let_def in_terminals_def ex_defs
  shown_label_def class_name_def str_clade_def draw_clade_lines_def issue_def format_confidence_def
  own_color_def own_lw_def

lemma pair_x: "get_x_positions ex_pair = Inr [(0, 0), (1, 1), (2, 1)]"
  by (simp add: ex_defs get_x_positions_def dict_of_def depths_def depth_of_def py_max_def dict_values_def)

lemma pair_y: "get_y_positions ex_pair = Inr [(2, 2), (1, 1), (0, 3 / 2)]"
  by (simp add: ex_defs get_y_positions_def dict_of_def calc_row_y_def)



lemma pair_oriented: "draw_oriented (ex_ctx ex_pair) ex_axes = Inr (ex_plot ''k'')"
  apply (simp add: draw_oriented_def ex_ctx_def ex_pair_def ex_env_def add_collections_def ex_axes_def)
  apply (simp add: clade_defs ex_plot_def)
  done


lemma ex_env_import: "matplotlib_available ex_env"
  by (simp add: ex_env_def)

lemma ex_setup_axes: "setup_axes (default_args\<lparr>kwargs := kw\<rparr>) new_plot = Inr ex_axes"
  by (simp add: setup_axes_def default_args_def issue_def new_plot_def ex_axes_def)

lemma ex_select: "select_format_branch_label ex_env (default_args\<lparr>kwargs := kw\<rparr>) = Inr (format_confidence ex_env)"
  by (simp add: select_format_branch_label_def truthy_branch_labels_def default_args_def)

lemma ex_select_color: "select_get_label_color (default_args\<lparr>kwargs := kw\<rparr>) = (\<lambda>label. ''black'')"
  by (simp add: select_get_label_color_def default_args_def)

lemma ex_fields:
  "orient_tree (default_args\<lparr>kwargs := kw\<rparr>) = ''vertical''"
  "vertical_direction (default_args\<lparr>kwargs := kw\<rparr>) = ''right''"
  "horizontal_direction (default_args\<lparr>kwargs := kw\<rparr>) = ''down''"
  "label_func (default_args\<lparr>kwargs := kw\<rparr>) = (\<lambda>c. Some (str_clade c))"
  "circular_span (default_args\<lparr>kwargs := kw\<rparr>) = 355"
  "draw_labels (default_args\<lparr>kwargs := kw\<rparr>) = True"
  "align_labels (default_args\<lparr>kwargs := kw\<rparr>) = False"
  by (simp_all add: default_args_def)

lemma pair_figure:
  "draw_figure ex_env ex_pair (default_args\<lparr>kwargs := kw\<rparr>) = Inr (ex_plot ''k'')"
proof -
  have t: "set_title ex_pair (ex_plot ''k'') = ex_plot ''k''" by (simp add: set_title_def ex_pair_def)
  show ?thesis
    unfolding draw_figure_def
    using pair_oriented t
    by (simp add: ex_env_import ex_setup_axes ex_select ex_select_color ex_fields pair_x pair_y
        and_then_def raising_def ex_ctx_def del: One_nat_def)
qed


lemma ex_plot_drawn: "drawn (ex_plot col)"
  by (simp add: drawn_def ex_plot_def is_drawing_call_def)

section \<open>The colours of the branches\<close>








lemma add_edge_1_0_ident: "ident (snd (add_edge_1_0 g n1 n2)) = ident n2"
  by (simp add: add_edge_1_0_def Let_def split: option.splits prod.splits)








section \<open>The claims about \<open>draw\<close>\<close>

text \<open>
  Claim C6. For every tree and every orientation string that is not \<open>horizontal\<close>,
  \<open>vertical\<close> or \<open>circular\<close>, \<open>draw\<close> raises before any call to the plotting
  surface: no call has been issued and no line collection built when the exception
  leaves. Where the plotting library can be imported the exception is the
  \<open>ValueError\<close> of the validation of \<open>orient_tree\<close>.
\<close>

theorem invalid_orientation_rejected:
  assumes "orient_tree args \<notin> set [''horizontal'', ''vertical'', ''circular'']"
  shows "\<exists>err. draw e t args = (Inl (err, new_plot), t) \<and>
           calls new_plot = [] \<and> horizontal_linecollections new_plot = [] \<and>
           vertical_linecollections new_plot = [] \<and>
           (matplotlib_available e \<or> pylab_available e \<longrightarrow>
              err = ValueError (''orient_tree must be one of '' @ quoted ''horizontal'' @ '', ''
                                @ quoted ''vertical'' @ '' or '' @ quoted ''circular''))"
  using assms by (simp add: draw_def draw_figure_def and_then_def new_plot_def)

text \<open>The theorem at \<open>orient_tree="diagonal"\<close> and the tree \<open>(A, B)\<close>.\<close>

theorem invalid_orientation_rejected_witness:
  "orient_tree ex_args_diagonal \<notin> set [''horizontal'', ''vertical'', ''circular''] \<and>
   (matplotlib_available ex_env \<or> pylab_available ex_env) \<and>
   draw ex_env ex_pair ex_args_diagonal =
     (Inl (ValueError (''orient_tree must be one of '' @ quoted ''horizontal'' @ '', ''
                       @ quoted ''vertical'' @ '' or '' @ quoted ''circular''), new_plot), ex_pair) \<and>
   calls new_plot = [] \<and> horizontal_linecollections new_plot = [] \<and>
   vertical_linecollections new_plot = []"
proof -
  have o: "orient_tree ex_args_diagonal \<notin> set [''horizontal'', ''vertical'', ''circular'']"
    by (simp add: ex_args_diagonal_def default_args_def)
  have m: "matplotlib_available ex_env \<or> pylab_available ex_env" by (simp add: ex_env_def)
  from invalid_orientation_rejected [OF o, of ex_env ex_pair] m o show ?thesis by auto
qed

text \<open>
  Claim C10. \<open>draw\<close> with \<open>branch_labels\<close> an empty dict does what \<open>draw\<close> with
  \<open>branch_labels\<close> absent does, whatever the other arguments: the options test the
  truth value of \<open>branch_labels\<close>, so the branch of the dict lookup is not taken, no
  \<open>TypeError\<close> is raised, and \<open>format_branch_label\<close> is the formatting of the
  confidence values when \<open>show_confidence\<close> holds and the function that returns
  \<open>None\<close> otherwise.
\<close>

theorem empty_dict_branch_labels:
  "draw e t (args\<lparr>branch_labels := BLDict []\<rparr>) = draw e t (args\<lparr>branch_labels := BLNone\<rparr>) \<and>
   select_format_branch_label e (args\<lparr>branch_labels := BLDict []\<rparr>) =
     Inr (if show_confidence args then format_confidence e else (\<lambda>clade. None))"
  by (simp add: draw_def draw_figure_empty_dict select_format_branch_label_def truthy_branch_labels_def)

text \<open>
  Claim C7, as amended. The keyword options are handled after the tree has been drawn
  (lines 764 to 780 follow the drawing). When the drawing of the tree succeeds and the
  options before it are passed on without an exception, an option whose value is not
  iterable makes \<open>draw\<close> raise the \<open>ValueError\<close> that names the key and the value;
  the plot has then been drawn on: the drawing calls of the tree, and the calls of the
  earlier options, have been issued.
\<close>

theorem kwargs_validated_after_drawing:
  assumes "draw_figure e t args = Inr p"
    and "kwargs args = pre @ (key, v) # post"
    and "process_kwargs e pre p = Inr p'"
    and "\<not> py_iterable v"
  shows "draw e t args = (Inl (ValueError (kwarg_message e key v), p'), t) \<and> drawn p'"
proof -
  have "process_kwargs e (kwargs args) p = Inl (ValueError (kwarg_message e key v), p')"
    using assms(2,3,4) by (simp add: process_kwargs_append pyplot_option_def)
  then have "draw e t args = (Inl (ValueError (kwarg_message e key v), p'), t)"
    using assms(1) by (simp add: draw_def and_then_def)
  moreover have "drawn p'"
    using draw_figure_drawn [OF assms(1)] process_kwargs_extends [OF assms(3)] extends_drawn by blast
  ultimately show ?thesis by simp
qed

text \<open>
  The theorem at \<open>draw(tree, axvline=5)\<close> for the tree \<open>(A, B)\<close>: the only option is
  the offending one.
\<close>

theorem kwargs_validated_after_drawing_witness:
  "draw_figure ex_env ex_pair ex_args_axvline = Inr (ex_plot ''k'') \<and>
   kwargs ex_args_axvline = [] @ (''axvline'', PyInt 5) # [] \<and>
   process_kwargs ex_env [] (ex_plot ''k'') = Inr (ex_plot ''k'') \<and>
   \<not> py_iterable (PyInt 5) \<and>
   draw ex_env ex_pair ex_args_axvline =
     (Inl (ValueError (kwarg_message ex_env ''axvline'' (PyInt 5)), ex_plot ''k''), ex_pair) \<and>
   drawn (ex_plot ''k'')"
proof -
  have f: "draw_figure ex_env ex_pair ex_args_axvline = Inr (ex_plot ''k'')"
    unfolding ex_args_axvline_def by (rule pair_figure)
  have k: "kwargs ex_args_axvline = [] @ (''axvline'', PyInt 5) # []"
    by (simp add: ex_args_axvline_def)
  have p: "process_kwargs ex_env [] (ex_plot ''k'') = Inr (ex_plot ''k'')" by simp
  have n: "\<not> py_iterable (PyInt 5)" by (simp add: py_iterable_def)
  from kwargs_validated_after_drawing [OF f k p n] f k p n show ?thesis by blast
qed

text \<open>
  Claim C7 as stated fails at \<open>draw(tree, axvline=5)\<close>: the \<open>ValueError\<close> is raised
  with the whole tree drawn, its four line collections added to the axes and its two
  labels placed.
\<close>

theorem kwargs_error_after_drawing_counterexample:
  "fst (draw ex_env ex_pair ex_args_axvline) =
     Inl (ValueError (kwarg_message ex_env ''axvline'' (PyInt 5)), ex_plot ''k'') \<and>
   length (calls (ex_plot ''k'')) = 12 \<and>
   length (filter is_drawing_call (calls (ex_plot ''k''))) = 6 \<and>
   calls (ex_plot ''k'') \<noteq> []"
proof -
  have f: "draw_figure ex_env ex_pair ex_args_axvline = Inr (ex_plot ''k'')"
    unfolding ex_args_axvline_def by (rule pair_figure)
  have "fst (draw ex_env ex_pair ex_args_axvline) =
     Inl (ValueError (kwarg_message ex_env ''axvline'' (PyInt 5)), ex_plot ''k'')"
    using f by (simp add: draw_def and_then_def ex_args_axvline_def pyplot_option_def py_iterable_def)
  then show ?thesis by (simp add: ex_plot_def is_drawing_call_def)
qed




end
